theory Spec2Isabelle
  imports Main "HOL-Library.Word"
begin

section \<open>JavaScript strings\<close>

text \<open>
  A JavaScript string is a sequence of UTF-16 code units; \<open>length\<close>, \<open>slice\<close>,
  \<open>includes\<close>, \<open>startsWith\<close>, \<open>replace\<close> and \<open>trim\<close> all work on code units.
  ASCII literals are written \<open>js ''...''\<close>; other characters are given by their code units.
\<close>

type_synonym jsstring = "16 word list"

definition js :: "string \<Rightarrow> jsstring" where
  "js s = map (\<lambda>c. of_nat (of_char c)) s"

text \<open>\<open>s.slice(a, b)\<close> for non-negative \<open>a\<close>, \<open>b\<close>: the code units from index \<open>a\<close> up to,
  not including, index \<open>b\<close>, both clamped to the length; empty when \<open>b \<le> a\<close>.\<close>

definition slice :: "jsstring \<Rightarrow> nat \<Rightarrow> nat \<Rightarrow> jsstring" where
  "slice s a b = take (b - a) (drop a s)"

text \<open>\<open>s.startsWith(p)\<close>.\<close>

fun startsWith :: "jsstring \<Rightarrow> jsstring \<Rightarrow> bool" where
  "startsWith s [] = True"
| "startsWith [] (p # ps) = False"
| "startsWith (c # s) (p # ps) = (c = p \<and> startsWith s ps)"

text \<open>\<open>s.includes(p)\<close>: \<open>p\<close> occurs in \<open>s\<close> as a contiguous run.\<close>

fun includes_str :: "jsstring \<Rightarrow> jsstring \<Rightarrow> bool" where
  "includes_str [] p = (p = [])"
| "includes_str (c # s) p = (startsWith (c # s) p \<or> includes_str s p)"

text \<open>\<open>s.replace(p, r)\<close> with a string pattern: only the first occurrence is replaced.
  (The replacement used in this program is the empty string, which has no \<open>$\<close> patterns.)\<close>

fun replace :: "jsstring \<Rightarrow> jsstring \<Rightarrow> jsstring \<Rightarrow> jsstring" where
  "replace [] p r = (if p = [] then r else [])"
| "replace (c # s) p r =
     (if startsWith (c # s) p then r @ drop (length p) (c # s)
      else c # replace s p r)"

text \<open>The code units \<open>trim\<close> and \<open>trimStart\<close> strip: ECMAScript WhiteSpace and
  LineTerminator.\<close>

definition isWhiteSpace :: "16 word \<Rightarrow> bool" where
  "isWhiteSpace c \<longleftrightarrow>
     c = 0x09 \<or> c = 0x0A \<or> c = 0x0B \<or> c = 0x0C \<or> c = 0x0D \<or> c = 0x20 \<or>
     c = 0xA0 \<or> c = 0x1680 \<or> (0x2000 \<le> c \<and> c \<le> 0x200A) \<or>
     c = 0x2028 \<or> c = 0x2029 \<or> c = 0x202F \<or> c = 0x205F \<or> c = 0x3000 \<or> c = 0xFEFF"

definition trimStart :: "jsstring \<Rightarrow> jsstring" where
  "trimStart s = dropWhile isWhiteSpace s"

definition trimEnd :: "jsstring \<Rightarrow> jsstring" where
  "trimEnd s = rev (dropWhile isWhiteSpace (rev s))"

definition trim :: "jsstring \<Rightarrow> jsstring" where
  "trim s = trimEnd (trimStart s)"

section \<open>Configuration constants (config.ts)\<close>

definition TELEGRAM_MESSAGE_LIMIT :: nat where
  "TELEGRAM_MESSAGE_LIMIT = 4096"

definition TELEGRAM_SAFE_LIMIT :: nat where
  "TELEGRAM_SAFE_LIMIT = 4000"

definition STREAMING_THROTTLE_MS :: int where
  "STREAMING_THROTTLE_MS = 500"

section \<open>The chat transport and the trace of calls\<close>

text \<open>
  A grammy \<open>Message\<close>, as far as the program reads it: \<open>msg.chat.id\<close> and
  \<open>msg.message_id\<close>.
\<close>

record message =
  chat_id :: int
  message_id :: nat

text \<open>
  Every call the program makes on a collaborator is appended to a trace, with whether it
  returned (\<open>True\<close>) or threw (\<open>False\<close>).  \<open>Reply text html\<close> is
  \<open>ctx.reply(text, {parse_mode: "HTML"})\<close> when \<open>html\<close> holds and \<open>ctx.reply(text)\<close>
  otherwise; likewise for \<open>ctx.api.editMessageText\<close>.
\<close>

datatype call =
    Reply jsstring bool
  | EditMessageText int nat jsstring bool
  | DeleteMessage int nat
  | SendMessageStreaming jsstring
  | Kill
  | MarkInterrupt
  | Stop
  | Sleep nat
  | ClearStopRequested
  | AuditLog int jsstring jsstring jsstring jsstring
  | AuditLogRateLimit int jsstring
  | StartTypingIndicator
  | TypingStop

type_synonym trace = "(call \<times> bool) list"

text \<open>
  The transport is an oracle: \<open>oracle n\<close> tells whether the transport call issued when
  the trace holds \<open>n\<close> entries throws.  A created message gets the position of its
  \<open>Reply\<close> in the trace as its \<open>message_id\<close>, so distinct messages have distinct ids.
\<close>

definition reply :: "(nat \<Rightarrow> bool) \<Rightarrow> int \<Rightarrow> jsstring \<Rightarrow> bool \<Rightarrow> trace \<Rightarrow> trace \<times> message option" where
  "reply oracle chat text html tr =
     (let ok = \<not> oracle (length tr)
      in (tr @ [(Reply text html, ok)],
          if ok then Some \<lparr>chat_id = chat, message_id = length tr\<rparr> else None))"

definition editMessageText :: "(nat \<Rightarrow> bool) \<Rightarrow> message \<Rightarrow> jsstring \<Rightarrow> bool \<Rightarrow> trace \<Rightarrow> trace \<times> bool" where
  "editMessageText oracle m text html tr =
     (let ok = \<not> oracle (length tr)
      in (tr @ [(EditMessageText (chat_id m) (message_id m) text html, ok)], ok))"

definition deleteMessage :: "(nat \<Rightarrow> bool) \<Rightarrow> message \<Rightarrow> trace \<Rightarrow> trace \<times> bool" where
  "deleteMessage oracle m tr =
     (let ok = \<not> oracle (length tr)
      in (tr @ [(DeleteMessage (chat_id m) (message_id m), ok)], ok))"

section \<open>Streaming render state (handlers/streaming.ts)\<close>

text \<open>The class \<open>StreamingState\<close>; \<open>new_StreamingState\<close> is \<open>new StreamingState()\<close>.\<close>

record StreamingState =
  textMessages :: "int \<rightharpoonup> message"
  toolMessages :: "message list"
  lastEditTimes :: "int \<rightharpoonup> int"

definition new_StreamingState :: StreamingState where
  "new_StreamingState = \<lparr>textMessages = Map.empty, toolMessages = [], lastEditTimes = Map.empty\<rparr>"

text \<open>One invocation of the callback: the arguments \<open>statusType\<close>, \<open>content\<close>, \<open>segmentId\<close>
  (\<open>None\<close> is \<open>undefined\<close>), and the value \<open>Date.now()\<close> has during it.\<close>

record event =
  e_now :: int
  e_statusType :: jsstring
  e_content :: jsstring
  e_segmentId :: "int option"

section \<open>The session (session.ts)\<close>

text \<open>
  The fields of the process-wide \<open>session\<close> object that the handlers and the heartbeat
  read or write.
\<close>

record session =
  sessionId :: "jsstring option"
  isRunning :: bool
  stopRequested :: bool
  interruptRequested :: bool
  conversationTitle :: "jsstring option"
  lastMessage :: "jsstring option"
  contextWarning :: "jsstring option"

text \<open>Modelled from the spec: the getter \<open>isActive\<close> of session.ts, which is not among
  the sources: "\<open>isActive\<close>: whether a sessionId exists".\<close>

definition isActive :: "session \<Rightarrow> bool" where
  "isActive s \<longleftrightarrow> sessionId s \<noteq> None"

text \<open>Modelled from the spec: the method \<open>startProcessing\<close> of session.ts:
  "marks \<open>isRunning = true\<close> and returns a closure that clears it".
  \<open>stopProcessing\<close> is the returned closure.\<close>

definition startProcessing :: "session \<Rightarrow> session" where
  "startProcessing s = s\<lparr>isRunning := True\<rparr>"

definition stopProcessing :: "session \<Rightarrow> session" where
  "stopProcessing s = s\<lparr>isRunning := False\<rparr>"

text \<open>Modelled from the spec: the methods \<open>markInterrupt\<close> and \<open>consumeInterruptFlag\<close> of
  session.ts: "a single-use flag, set immediately before \<open>stop()\<close> is called due to an
  incoming new message, consumed by the caller that needs to decide whether to show a
  query stopped notice".\<close>

definition markInterrupt :: "session \<Rightarrow> session" where
  "markInterrupt s = s\<lparr>interruptRequested := True\<rparr>"

definition consumeInterruptFlag :: "session \<Rightarrow> bool \<times> session" where
  "consumeInterruptFlag s = (interruptRequested s, s\<lparr>interruptRequested := False\<rparr>)"

text \<open>Modelled from the spec: the methods \<open>stop\<close> and \<open>clearStopRequested\<close> of session.ts:
  "if no query is running, returns no-op; if a query is running, signals cancellation",
  with \<open>stopRequested\<close> the "transient flag set when cancellation has been requested but
  not yet observed".  The value \<open>stop\<close> returns is not used by the callers modelled here.\<close>

definition stop :: "session \<Rightarrow> session" where
  "stop s = (if isRunning s then s\<lparr>stopRequested := True\<rparr> else s)"

definition clearStopRequested :: "session \<Rightarrow> session" where
  "clearStopRequested s = s\<lparr>stopRequested := False\<rparr>"

text \<open>Modelled from the spec: the method \<open>kill\<close> of session.ts: "hard-resets session
  identity; subsequent \<open>sendMessageStreaming\<close> calls start a fresh underlying session".\<close>

definition kill :: "session \<Rightarrow> session" where
  "kill s = s\<lparr>sessionId := None\<rparr>"

text \<open>Modelled from the spec: the method \<open>consumeContextWarning\<close> of session.ts: "at most one
  pending warning string, produced by a query and consumed exactly once by the caller".\<close>

definition consumeContextWarning :: "session \<Rightarrow> jsstring option \<times> session" where
  "consumeContextWarning s = (contextWarning s, s\<lparr>contextWarning := None\<rparr>)"

text \<open>
  \<open>session.sendMessageStreaming\<close> is the boundary to the assistant process and is taken
  as a parameter.  One invocation is described by the events it passes to the status
  callback before it settles, by what has happened to the session object when the
  \<open>await\<close> resumes (the query's own writes and those of handlers that ran meanwhile), and
  by its result: \<open>Inr response\<close> when the promise resolves, \<open>Inl errorStr\<close> when it
  rejects, \<open>errorStr\<close> being \<open>String(error)\<close>.
\<close>

record adapter_outcome =
  events :: "event list"
  effect :: "session \<Rightarrow> session"
  result :: "jsstring + jsstring"

section \<open>The environment\<close>

text \<open>
  Everything outside the sources that a run depends on: the transport oracle,
  \<open>convertMarkdownToHtml\<close> (formatting.ts), the outcome of the \<open>n\<close>-th attempt at
  \<open>sendMessageStreaming\<close> within one handler run, \<open>isAuthorized\<close> against
  \<open>ALLOWED_USERS\<close> (security.ts), and \<open>rateLimiter.check\<close>, which yields \<open>allowed\<close>
  and the text of \<open>retryAfter.toFixed(1)\<close>.
\<close>

record env =
  throws :: "nat \<Rightarrow> bool"
  convertMarkdownToHtml :: "jsstring \<Rightarrow> jsstring"
  adapter :: "nat \<Rightarrow> adapter_outcome"
  isAuthorized :: "int \<Rightarrow> bool"
  rateLimiter_check :: "int \<Rightarrow> bool \<times> jsstring"

section \<open>The status callback (handlers/streaming.ts)\<close>

text \<open>
  Each branch of the callback's \<open>try\<close> block returns the trace, the state and whether an
  exception left the branch (it is then caught by the callback's outer \<open>catch\<close>).
\<close>

text \<open>Branch \<open>"thinking"\<close>.  The prefix is U+1F9E0 (a surrogate pair) followed by \<open> <i>\<close>.\<close>

definition on_thinking :: "env \<Rightarrow> int \<Rightarrow> jsstring \<Rightarrow> trace \<Rightarrow> StreamingState \<Rightarrow> trace \<times> StreamingState \<times> bool" where
  "on_thinking env chat content tr st =
     (let preview = (if length content > 500 then slice content 0 500 @ js ''...'' else content)
      in case reply (throws env) chat ([0xD83E, 0xDDE0] @ js '' <i>'' @ preview @ js ''</i>'') True tr of
           (tr1, Some thinkingMsg) \<Rightarrow> (tr1, st\<lparr>toolMessages := toolMessages st @ [thinkingMsg]\<rparr>, False)
         | (tr1, None) \<Rightarrow> (tr1, st, True))"

text \<open>Branch \<open>"tool"\<close>.\<close>

definition on_tool :: "env \<Rightarrow> int \<Rightarrow> jsstring \<Rightarrow> trace \<Rightarrow> StreamingState \<Rightarrow> trace \<times> StreamingState \<times> bool" where
  "on_tool env chat content tr st =
     (case reply (throws env) chat content True tr of
        (tr1, Some toolMsg) \<Rightarrow> (tr1, st\<lparr>toolMessages := toolMessages st @ [toolMsg]\<rparr>, False)
      | (tr1, None) \<Rightarrow> (tr1, st, True))"

text \<open>The display text of a streaming update: truncated to the safe limit with an ellipsis.\<close>

definition display :: "jsstring \<Rightarrow> jsstring" where
  "display content =
     (if length content > TELEGRAM_SAFE_LIMIT
      then slice content 0 TELEGRAM_SAFE_LIMIT @ js ''...'' else content)"

text \<open>\<open>state.lastEditTimes.get(segmentId) || 0\<close>.\<close>

definition lastEdit :: "StreamingState \<Rightarrow> int \<Rightarrow> int" where
  "lastEdit st seg = (case lastEditTimes st seg of None \<Rightarrow> 0 | Some t \<Rightarrow> t)"

text \<open>Branch \<open>"text"\<close> with a segment id.\<close>

definition on_text :: "env \<Rightarrow> int \<Rightarrow> int \<Rightarrow> jsstring \<Rightarrow> int \<Rightarrow> trace \<Rightarrow> StreamingState \<Rightarrow> trace \<times> StreamingState \<times> bool" where
  "on_text env chat now content seg tr st =
     (case textMessages st seg of
        None \<Rightarrow>
          (let formatted = convertMarkdownToHtml env (display content)
           in case reply (throws env) chat formatted True tr of
                (tr1, Some msg) \<Rightarrow>
                  (tr1, st\<lparr>textMessages := (textMessages st)(seg \<mapsto> msg),
                            lastEditTimes := (lastEditTimes st)(seg \<mapsto> now)\<rparr>, False)
              | (tr1, None) \<Rightarrow>
                  (case reply (throws env) chat formatted False tr1 of
                     (tr2, Some msg) \<Rightarrow>
                       (tr2, st\<lparr>textMessages := (textMessages st)(seg \<mapsto> msg),
                                 lastEditTimes := (lastEditTimes st)(seg \<mapsto> now)\<rparr>, False)
                   | (tr2, None) \<Rightarrow> (tr2, st, True)))
      | Some msg \<Rightarrow>
          (if now - lastEdit st seg > STREAMING_THROTTLE_MS then
             (let formatted = convertMarkdownToHtml env (display content)
              in case editMessageText (throws env) msg formatted True tr of
                   (tr1, True) \<Rightarrow> (tr1, st\<lparr>lastEditTimes := (lastEditTimes st)(seg \<mapsto> now)\<rparr>, False)
                 | (tr1, False) \<Rightarrow>
                     (case editMessageText (throws env) msg formatted False tr1 of
                        (tr2, _) \<Rightarrow> (tr2, st\<lparr>lastEditTimes := (lastEditTimes st)(seg \<mapsto> now)\<rparr>, False)))
           else (tr, st, False)))"

text \<open>The loop that re-sends an over-long final text in chunks:
  \<open>for (let i = 0; i < formatted.length; i += TELEGRAM_SAFE_LIMIT)\<close>.  A chunk whose HTML
  reply throws is re-sent as plain text; if that throws too the exception leaves the loop.\<close>

function split_loop :: "env \<Rightarrow> int \<Rightarrow> jsstring \<Rightarrow> nat \<Rightarrow> trace \<Rightarrow> trace \<times> bool" where
  "split_loop env chat formatted i tr =
     (if i < length formatted then
        (let chunk = slice formatted i (i + TELEGRAM_SAFE_LIMIT)
         in case reply (throws env) chat chunk True tr of
              (tr1, Some _) \<Rightarrow> split_loop env chat formatted (i + TELEGRAM_SAFE_LIMIT) tr1
            | (tr1, None) \<Rightarrow>
                (case reply (throws env) chat chunk False tr1 of
                   (tr2, Some _) \<Rightarrow> split_loop env chat formatted (i + TELEGRAM_SAFE_LIMIT) tr2
                 | (tr2, None) \<Rightarrow> (tr2, True)))
      else (tr, False))"
  by pat_completeness auto
termination
  by (relation "measure (\<lambda>(env, chat, formatted, i, tr). length formatted - i)")
     (auto simp: TELEGRAM_SAFE_LIMIT_def)

declare split_loop.simps [simp del]

text \<open>Branch \<open>"segment_end"\<close> with a segment id.\<close>

definition on_segment_end :: "env \<Rightarrow> int \<Rightarrow> jsstring \<Rightarrow> int \<Rightarrow> trace \<Rightarrow> StreamingState \<Rightarrow> trace \<times> StreamingState \<times> bool" where
  "on_segment_end env chat content seg tr st =
     (case textMessages st seg of
        None \<Rightarrow> (tr, st, False)
      | Some msg \<Rightarrow>
          (if content = [] then (tr, st, False)
           else
             (let formatted = convertMarkdownToHtml env content
              in if length formatted \<le> TELEGRAM_MESSAGE_LIMIT then
                   (case editMessageText (throws env) msg formatted True tr of
                      (tr1, _) \<Rightarrow> (tr1, st, False))
                 else
                   (case deleteMessage (throws env) msg tr of
                      (tr1, _) \<Rightarrow>
                        (case split_loop env chat formatted 0 tr1 of
                           (tr2, threw) \<Rightarrow> (tr2, st, threw))))))"

text \<open>The loop \<open>for (const toolMsg of state.toolMessages)\<close> that deletes each message and
  ignores a failing delete; it is the body of branch \<open>"done"\<close>, and the text handler runs
  the same loop when it cleans up after a failed attempt.\<close>

fun delete_each :: "(nat \<Rightarrow> bool) \<Rightarrow> message list \<Rightarrow> trace \<Rightarrow> trace" where
  "delete_each oracle [] tr = tr"
| "delete_each oracle (toolMsg # rest) tr =
     delete_each oracle rest (fst (deleteMessage oracle toolMsg tr))"

definition on_done :: "env \<Rightarrow> int \<Rightarrow> trace \<Rightarrow> StreamingState \<Rightarrow> trace \<times> StreamingState \<times> bool" where
  "on_done env chat tr st = (delete_each (throws env) (toolMessages st) tr, st, False)"

text \<open>The \<open>try\<close> block of the callback: the chain of \<open>if\<close>/\<open>else if\<close> on \<open>statusType\<close>.\<close>

definition statusCallback_try :: "env \<Rightarrow> int \<Rightarrow> event \<Rightarrow> trace \<Rightarrow> StreamingState \<Rightarrow> trace \<times> StreamingState \<times> bool" where
  "statusCallback_try env chat ev tr st =
     (if e_statusType ev = js ''thinking'' then on_thinking env chat (e_content ev) tr st
      else if e_statusType ev = js ''tool'' then on_tool env chat (e_content ev) tr st
      else if e_statusType ev = js ''text'' \<and> e_segmentId ev \<noteq> None then
        on_text env chat (e_now ev) (e_content ev) (the (e_segmentId ev)) tr st
      else if e_statusType ev = js ''segment_end'' \<and> e_segmentId ev \<noteq> None then
        on_segment_end env chat (e_content ev) (the (e_segmentId ev)) tr st
      else if e_statusType ev = js ''done'' then on_done env chat tr st
      else (tr, st, False))"

text \<open>
  The callback returned by \<open>createStatusCallback(ctx, state)\<close>: the \<open>try\<close> block inside
  \<open>catch (error) { console.error(...) }\<close>.  The third component of the result tells
  whether the callback itself threw to its caller.
\<close>

definition statusCallback :: "env \<Rightarrow> int \<Rightarrow> event \<Rightarrow> trace \<Rightarrow> StreamingState \<Rightarrow> trace \<times> StreamingState \<times> bool" where
  "statusCallback env chat ev tr st =
     (case statusCallback_try env chat ev tr st of
        (tr1, st1, True) \<Rightarrow> (tr1, st1, False)
      | (tr1, st1, False) \<Rightarrow> (tr1, st1, False))"

text \<open>The events of one query, delivered to the callback in emission order.\<close>

fun run_events :: "env \<Rightarrow> int \<Rightarrow> event list \<Rightarrow> trace \<Rightarrow> StreamingState \<Rightarrow> trace \<times> StreamingState" where
  "run_events env chat [] tr st = (tr, st)"
| "run_events env chat (ev # evs) tr st =
     (case statusCallback env chat ev tr st of (tr1, st1, _) \<Rightarrow> run_events env chat evs tr1 st1)"

section \<open>The interrupt prefix (utils.ts)\<close>

text \<open>
  \<open>checkInterrupt(text)\<close>.  The calls on the session are recorded in the trace, the
  pause \<open>Bun.sleep(100)\<close> included.  \<open>!text\<close> holds of the empty string.
\<close>

definition checkInterrupt :: "jsstring \<Rightarrow> session \<Rightarrow> trace \<Rightarrow> jsstring \<times> session \<times> trace" where
  "checkInterrupt text s tr =
     (if text = [] \<or> \<not> startsWith text (js ''!'') then (text, s, tr)
      else
        (let strippedText = trimStart (drop 1 text)
         in if isRunning s then
              (let s1 = markInterrupt s;
                   s2 = stop s1;
                   s3 = clearStopRequested s2
               in (strippedText, s3,
                   tr @ [(MarkInterrupt, True), (Stop, True), (Sleep 100, True),
                         (ClearStopRequested, True)]))
            else (strippedText, s, tr)))"

section \<open>The text handler (handlers/text.ts)\<close>

text \<open>The fields of the grammy context that \<open>handleText\<close> reads: \<open>ctx.from?.id\<close>,
  \<open>ctx.from?.username\<close>, \<open>ctx.chat?.id\<close> and \<open>ctx.message?.text\<close>;
  \<open>None\<close> is \<open>undefined\<close>.\<close>

record ctx =
  from_id :: "int option"
  from_username :: "jsstring option"
  ctx_chat_id :: "int option"
  message_text :: "jsstring option"

definition MAX_RETRIES :: nat where
  "MAX_RETRIES = 1"

text \<open>The notices the handler sends.  The leading characters are U+26A0 U+FE0F,
  U+1F6D1 (a surrogate pair), U+274C and U+23F3.\<close>

definition retry_notice :: jsstring where
  "retry_notice = [0x26A0, 0xFE0F] @ js '' Claude crashed, retrying...''"

definition stopped_notice :: jsstring where
  "stopped_notice = [0xD83D, 0xDED1] @ js '' Query stopped.''"

definition error_notice :: "jsstring \<Rightarrow> jsstring" where
  "error_notice errorStr = [0x274C] @ js '' Error: '' @ slice errorStr 0 200"

definition rate_limit_notice :: "jsstring \<Rightarrow> jsstring" where
  "rate_limit_notice retryAfter =
     [0x23F3] @ js '' Rate limited. Please wait '' @ retryAfter @ js '' seconds.''"

text \<open>
  The rest of the \<open>try\<close> block once \<open>sendMessageStreaming\<close> has resolved: the context
  warning is passed to the status callback (which has no branch for
  \<open>"context_warning"\<close> and does not read the clock there), then the audit log is written.
  \<open>auditLog\<close> catches its own errors, so nothing here throws.
\<close>

definition on_response :: "env \<Rightarrow> int \<Rightarrow> int \<Rightarrow> jsstring \<Rightarrow> jsstring \<Rightarrow> jsstring \<Rightarrow> StreamingState \<Rightarrow> session \<Rightarrow> trace \<Rightarrow> session \<times> trace" where
  "on_response env chatId userId username message response state s tr =
     (case consumeContextWarning s of
        (warning, s1) \<Rightarrow>
          (let tr1 = (case warning of
                        None \<Rightarrow> tr
                      | Some w \<Rightarrow>
                          if w = [] then tr
                          else fst (statusCallback env chatId
                                 \<lparr>e_now = 0, e_statusType = js ''context_warning'',
                                  e_content = w, e_segmentId = None\<rparr> tr state))
           in (s1, tr1 @ [(AuditLog userId username (js ''TEXT'') message response, True)])))"

text \<open>
  The \<open>catch\<close> block of one attempt.  It ends in \<open>continue\<close> (\<open>Retry\<close>), in \<open>break\<close>
  (\<open>Exit\<close> with \<open>False\<close>), or with an exception of one of its own \<open>ctx.reply\<close> calls,
  which nothing catches (\<open>Exit\<close> with \<open>True\<close>).
\<close>

datatype control = Retry session trace | Exit session trace bool

definition on_error :: "env \<Rightarrow> int \<Rightarrow> nat \<Rightarrow> jsstring \<Rightarrow> StreamingState \<Rightarrow> session \<Rightarrow> trace \<Rightarrow> control" where
  "on_error env chatId attempt errorStr state s tr =
     (let isClaudeCodeCrash = includes_str errorStr (js ''exited with code'');
          tr1 = delete_each (throws env) (toolMessages state) tr
      in if isClaudeCodeCrash \<and> attempt < MAX_RETRIES then
           (let s1 = kill s;
                tr2 = tr1 @ [(Kill, True)]
            in case reply (throws env) chatId retry_notice False tr2 of
                 (tr3, None) \<Rightarrow> Exit s1 tr3 True
               | (tr3, Some _) \<Rightarrow> Retry s1 tr3)
         else if includes_str errorStr (js ''abort'') \<or> includes_str errorStr (js ''cancel'') then
           (case consumeInterruptFlag s of
              (wasInterrupt, s1) \<Rightarrow>
                if \<not> wasInterrupt then
                  (case reply (throws env) chatId stopped_notice False tr1 of
                     (tr2, r) \<Rightarrow> Exit s1 tr2 (r = None))
                else Exit s1 tr1 False)
         else
           (case reply (throws env) chatId (error_notice errorStr) False tr1 of
              (tr2, r) \<Rightarrow> Exit s tr2 (r = None)))"

text \<open>
  The retry loop \<open>for (let attempt = 0; attempt <= MAX_RETRIES; attempt++)\<close>.  The
  result is the session, the trace, and whether an exception left the loop.
\<close>

function attempt_loop :: "env \<Rightarrow> int \<Rightarrow> int \<Rightarrow> jsstring \<Rightarrow> jsstring \<Rightarrow> nat \<Rightarrow> StreamingState \<Rightarrow> session \<Rightarrow> trace \<Rightarrow> session \<times> trace \<times> bool" where
  "attempt_loop env chatId userId username message attempt state s tr =
     (if attempt \<le> MAX_RETRIES then
        (let out = adapter env attempt;
             tr1 = tr @ [(SendMessageStreaming message, \<not> isl (result out))]
         in case run_events env chatId (events out) tr1 state of
              (tr2, state1) \<Rightarrow>
                (case result out of
                   Inr response \<Rightarrow>
                     (case on_response env chatId userId username message response state1
                             (effect out s) tr2 of
                        (s1, tr3) \<Rightarrow> (s1, tr3, False))
                 | Inl errorStr \<Rightarrow>
                     (case on_error env chatId attempt errorStr state1 (effect out s) tr2 of
                        Retry s1 tr3 \<Rightarrow>
                          attempt_loop env chatId userId username message (attempt + 1)
                            new_StreamingState s1 tr3
                      | Exit s1 tr3 threw \<Rightarrow> (s1, tr3, threw))))
      else (s, tr, False))"
  by pat_completeness auto
termination
  by (relation "measure (\<lambda>(env, chatId, userId, username, message, attempt, state, s, tr).
        Suc MAX_RETRIES - attempt)") auto

declare attempt_loop.simps [simp del]

text \<open>
  \<open>handleText(ctx)\<close>.  \<open>!userId\<close> and \<open>!chatId\<close> hold of \<open>undefined\<close> and of \<open>0\<close>,
  \<open>!message\<close> of \<open>undefined\<close> and of the empty string.  The result is the session, the
  trace, and whether the handler threw.  When the retry loop throws, the statements after
  it, \<open>stopProcessing()\<close> and \<open>typing.stop()\<close>, are not reached.
\<close>

definition handleText :: "env \<Rightarrow> ctx \<Rightarrow> session \<Rightarrow> trace \<Rightarrow> session \<times> trace \<times> bool" where
  "handleText env c s tr =
     (case (from_id c, message_text c, ctx_chat_id c) of
        (Some userId, Some text, Some chatId) \<Rightarrow>
          (let username = (case from_username c of
                             None \<Rightarrow> js ''unknown''
                           | Some u \<Rightarrow> if u = [] then js ''unknown'' else u)
           in if userId = 0 \<or> text = [] \<or> chatId = 0 then (s, tr, False)
              else if \<not> isAuthorized env userId then
                (case reply (throws env) chatId
                        (js ''Unauthorized. Contact the bot owner for access.'') False tr of
                   (tr1, r) \<Rightarrow> (s, tr1, r = None))
              else
                (case checkInterrupt text s tr of
                   (message, s1, tr1) \<Rightarrow>
                     if trim message = [] then (s1, tr1, False)
                     else
                       (case rateLimiter_check env userId of
                          (allowed, retryAfter) \<Rightarrow>
                            if \<not> allowed then
                              (case reply (throws env) chatId (rate_limit_notice retryAfter) False
                                      (tr1 @ [(AuditLogRateLimit userId username, True)]) of
                                 (tr2, r) \<Rightarrow> (s1, tr2, r = None))
                            else
                              (let s2 = s1\<lparr>lastMessage := Some message\<rparr>;
                                   s3 = (if \<not> isActive s2 then
                                           s2\<lparr>conversationTitle :=
                                                Some (if length message > 50
                                                      then slice message 0 47 @ js ''...''
                                                      else message)\<rparr>
                                         else s2);
                                   s4 = startProcessing s3;
                                   tr2 = tr1 @ [(StartTypingIndicator, True)]
                               in case attempt_loop env chatId userId username message 0
                                         new_StreamingState s4 tr2 of
                                    (s5, tr3, True) \<Rightarrow> (s5, tr3, True)
                                  | (s5, tr3, False) \<Rightarrow>
                                      (stopProcessing s5, tr3 @ [(TypingStop, True)], False)))))
      | _ \<Rightarrow> (s, tr, False))"

section \<open>The heartbeat (heartbeat.ts)\<close>

definition HEARTBEAT_TOKEN :: jsstring where
  "HEARTBEAT_TOKEN = js ''[[HEARTBEAT_ACK]]''"

definition MAX_ACK_LENGTH :: nat where
  "MAX_ACK_LENGTH = 30"

text \<open>
  The acknowledgment patterns are regular expressions with the flag \<open>i\<close>, built from
  literals, alternation, sequence and \<open>?\<close>, and anchored by \<open>^\<close> and \<open>$\<close>.
  Under the flag \<open>i\<close> two code units match when their canonical forms agree: the
  single-code-unit upper case, except that a non-ASCII unit is never mapped to an ASCII
  one.  The mapping is written out for ASCII and for the Latin letters among which the
  patterns' own non-ASCII characters lie; no other code unit has the canonical form of a
  character of the patterns.
\<close>

definition canonicalize :: "16 word \<Rightarrow> 16 word" where
  "canonicalize c =
     (if 0x61 \<le> c \<and> c \<le> 0x7A then c - 0x20
      else if 0xE0 \<le> c \<and> c \<le> 0xFE \<and> c \<noteq> 0xF7 then c - 0x20
      else if c = 0xFF then 0x178
      else if c = 0x153 then 0x152
      else c)"

datatype regex = Lit jsstring | Alt regex regex | Seq regex regex | Opt regex

text \<open>\<open>residuals r s\<close>: for every way \<open>r\<close> matches a prefix of \<open>s\<close>, what is left of
  \<open>s\<close>.\<close>

fun residuals :: "regex \<Rightarrow> jsstring \<Rightarrow> jsstring list" where
  "residuals (Lit p) s =
     (if length p \<le> length s \<and> map canonicalize (take (length p) s) = map canonicalize p
      then [drop (length p) s] else [])"
| "residuals (Alt a b) s = residuals a s @ residuals b s"
| "residuals (Seq a b) s = concat (map (residuals b) (residuals a s))"
| "residuals (Opt a) s = residuals a s @ [s]"

text \<open>\<open>/^r$/i.test(s)\<close>: some match of \<open>r\<close> from the start of \<open>s\<close> ends at its end.\<close>

definition regex_test :: "regex \<Rightarrow> jsstring \<Rightarrow> bool" where
  "regex_test r s \<longleftrightarrow> [] \<in> set (residuals r s)"

text \<open>
  The three patterns of \<open>ackPatterns\<close>.  The last two alternatives of the first pattern
  are, in the source file, the code units U+00E2 U+0153 U+201C and U+00F0 U+0178 U+2018.
\<close>

definition ackPatterns :: "regex list" where
  "ackPatterns =
     [Seq (Alt (Lit (js ''ok'')) (Alt (Lit (js ''okay'')) (Alt (Lit (js ''ack''))
            (Alt (Lit (js ''acknowledged'')) (Alt (Lit (js ''noted''))
            (Alt (Lit [0xE2, 0x153, 0x201C]) (Lit [0xF0, 0x178, 0x2018])))))))
          (Opt (Lit (js ''.''))),
      Seq (Lit (js ''heartbeat ''))
          (Seq (Alt (Lit (js ''ok'')) (Alt (Lit (js ''received'')) (Lit (js ''acknowledged''))))
               (Opt (Lit (js ''.'')))),
      Seq (Lit (js ''session ''))
          (Seq (Alt (Lit (js ''active'')) (Lit (js ''alive'')))
               (Opt (Lit (js ''.''))))]"

definition shouldSuppressHeartbeatResponse :: "jsstring \<Rightarrow> bool" where
  "shouldSuppressHeartbeatResponse response =
     (if response = [] then True
      else
        (let trimmed = trim response
         in if trimmed = [] then True
            else if includes_str trimmed HEARTBEAT_TOKEN \<and>
                    (let stripped = trim (replace trimmed HEARTBEAT_TOKEN [])
                     in stripped = [] \<or> length stripped \<le> MAX_ACK_LENGTH) then True
            else list_ex (\<lambda>pattern. regex_test pattern trimmed) ackPatterns))"

definition stripHeartbeatToken :: "jsstring \<Rightarrow> jsstring" where
  "stripHeartbeatToken response = trim (replace response HEARTBEAT_TOKEN [])"

text \<open>
  The classification of a heartbeat response in the words of the specification: a
  response is suppressible when it is empty or white space only; or it contains the
  acknowledgment token and what remains of it, once the token is removed and the rest
  trimmed, is empty or at most 30 code units long; or, trimmed, it matches one of the
  acknowledgment patterns.
\<close>

definition suppressible :: "jsstring \<Rightarrow> bool" where
  "suppressible response \<longleftrightarrow>
     list_all isWhiteSpace response \<or>
     (includes_str response HEARTBEAT_TOKEN \<and>
      (let remainder = trim (replace response HEARTBEAT_TOKEN [])
       in remainder = [] \<or> length remainder \<le> 30)) \<or>
     list_ex (\<lambda>pattern. regex_test pattern (trim response)) ackPatterns"

text \<open>What one run of the heartbeat writes to the console.\<close>

datatype heartbeat_log =
    No_active_session
  | Query_in_progress
  | Response_suppressed
  | Response_with_content jsstring
  | Heartbeat_error jsstring

text \<open>
  \<open>runHeartbeat()\<close>.  \<open>HEARTBEAT_PROMPT\<close> (not defined in the config.ts at hand), the
  outcome of the query it starts and the time of \<open>new Date()\<close> are parameters;
  \<open>lastHeartbeat\<close> is the module's variable.  The callback it passes is silent, so the
  events of the query are not rendered.  \<open>!session.sessionId\<close> holds of a missing id
  and of the empty string.
\<close>

definition runHeartbeat :: "jsstring \<Rightarrow> adapter_outcome \<Rightarrow> int \<Rightarrow> session \<Rightarrow> trace \<Rightarrow> int option \<Rightarrow> session \<times> trace \<times> int option \<times> heartbeat_log" where
  "runHeartbeat HEARTBEAT_PROMPT out date s tr lastHeartbeat =
     (if \<not> isActive s \<or> sessionId s = None \<or> sessionId s = Some [] then
        (s, tr, lastHeartbeat, No_active_session)
      else if isRunning s then (s, tr, lastHeartbeat, Query_in_progress)
      else
        (effect out s,
         tr @ [(SendMessageStreaming HEARTBEAT_PROMPT, \<not> isl (result out))],
         Some date,
         (case result out of
            Inr response \<Rightarrow>
              if shouldSuppressHeartbeatResponse response then Response_suppressed
              else Response_with_content (slice (stripHeartbeatToken response) 0 100)
          | Inl error \<Rightarrow> Heartbeat_error error)))"

section \<open>Reading the trace\<close>

text \<open>The texts of the messages that were created, in order: the \<open>Reply\<close> calls that
  returned.\<close>

fun delivered :: "trace \<Rightarrow> jsstring list" where
  "delivered [] = []"
| "delivered ((Reply t h, True) # tr) = t # delivered tr"
| "delivered (_ # tr) = delivered tr"

definition is_reply :: "call \<Rightarrow> bool" where
  "is_reply c = (case c of Reply t h \<Rightarrow> True | _ \<Rightarrow> False)"

text \<open>\<open>is_edit_of m t c\<close>: the call \<open>c\<close> edits message \<open>m\<close> to the text \<open>t\<close>.\<close>

definition is_edit_of :: "message \<Rightarrow> jsstring \<Rightarrow> call \<Rightarrow> bool" where
  "is_edit_of m t c =
     (case c of
        EditMessageText ch i t' h \<Rightarrow> ch = chat_id m \<and> i = message_id m \<and> t' = t
      | _ \<Rightarrow> False)"

text \<open>Calls on the transport, calls of \<open>sendMessageStreaming\<close>, and counting calls.\<close>

definition is_render :: "call \<Rightarrow> bool" where
  "is_render c =
     (case c of
        Reply t h \<Rightarrow> True
      | EditMessageText ch i t h \<Rightarrow> True
      | DeleteMessage ch i \<Rightarrow> True
      | _ \<Rightarrow> False)"

definition is_send :: "call \<Rightarrow> bool" where
  "is_send c = (case c of SendMessageStreaming p \<Rightarrow> True | _ \<Rightarrow> False)"

definition count_calls :: "(call \<Rightarrow> bool) \<Rightarrow> trace \<Rightarrow> nat" where
  "count_calls P tr = length (filter (\<lambda>e. P (fst e)) tr)"

text \<open>Events by kind.  Only a \<open>text\<close> event reads the clock; the time of the others is
  immaterial and set to \<open>0\<close>.\<close>

definition text_event :: "int \<Rightarrow> int \<times> jsstring \<Rightarrow> event" where
  "text_event seg tc =
     \<lparr>e_now = fst tc, e_statusType = js ''text'', e_content = snd tc, e_segmentId = Some seg\<rparr>"

definition segment_end_event :: "int \<Rightarrow> jsstring \<Rightarrow> event" where
  "segment_end_event seg c =
     \<lparr>e_now = 0, e_statusType = js ''segment_end'', e_content = c, e_segmentId = Some seg\<rparr>"

definition tool_event :: "jsstring \<Rightarrow> event" where
  "tool_event c = \<lparr>e_now = 0, e_statusType = js ''tool'', e_content = c, e_segmentId = None\<rparr>"

definition done_event :: event where
  "done_event = \<lparr>e_now = 0, e_statusType = js ''done'', e_content = [], e_segmentId = None\<rparr>"

section \<open>Concrete inputs\<close>

text \<open>An environment in which the transport never throws, the conversion to HTML leaves
  the text as it is, every query resolves at once with \<open>ok\<close>, and every user is
  authorized and within the rate limit.\<close>

definition env_ok :: env where
  "env_ok =
     \<lparr>throws = (\<lambda>n. False), convertMarkdownToHtml = (\<lambda>s. s),
      adapter = (\<lambda>n. \<lparr>events = [], effect = (\<lambda>s. s), result = Inr (js ''ok'')\<rparr>),
      isAuthorized = (\<lambda>u. True), rateLimiter_check = (\<lambda>u. (True, []))\<rparr>"

text \<open>An active session with no query running, and the same session with one running.\<close>

definition idle_session :: session where
  "idle_session =
     \<lparr>sessionId = Some (js ''abc''), isRunning = False, stopRequested = False,
      interruptRequested = False, conversationTitle = None, lastMessage = None,
      contextWarning = None\<rparr>"

definition running_session :: session where
  "running_session = idle_session\<lparr>isRunning := True\<rparr>"

text \<open>A text message \<open>hi\<close> from user 1 in chat 1.\<close>

definition ctx_hi :: ctx where
  "ctx_hi =
     \<lparr>from_id = Some 1, from_username = Some (js ''u''), ctx_chat_id = Some 1,
      message_text = Some (js ''hi'')\<rparr>"

text \<open>The same environment with a transport on which every call throws, and with one on
  which only the call at trace position 1 throws.\<close>

definition env_down :: env where
  "env_down = env_ok\<lparr>throws := (\<lambda>n. True)\<rparr>"

definition env_flaky :: env where
  "env_flaky = env_ok\<lparr>throws := (\<lambda>n. n = 1)\<rparr>"

text \<open>A render state in which segment 1 has a message, last updated at time 1000; one
  with two ephemeral messages; and a text of 4097 code units.\<close>

definition state_with_message :: StreamingState where
  "state_with_message =
     new_StreamingState\<lparr>textMessages := [1 \<mapsto> \<lparr>chat_id = 1, message_id = 0\<rparr>],
                         lastEditTimes := [1 \<mapsto> 1000]\<rparr>"

definition state_two_tools :: StreamingState where
  "state_two_tools =
     new_StreamingState\<lparr>toolMessages :=
       [\<lparr>chat_id = 1, message_id = 0\<rparr>, \<lparr>chat_id = 1, message_id = 1\<rparr>]\<rparr>"

definition long_text :: jsstring where
  "long_text = replicate 4097 0x61"

text \<open>An environment in which the transport is down and every query fails with a
  timeout; one in which the first query emits a tool event and then fails with a crash
  and the second resolves; and the render state after that tool event.\<close>

definition env_timeout_down :: env where
  "env_timeout_down =
     env_down\<lparr>adapter := (\<lambda>n. \<lparr>events = [], effect = (\<lambda>s. s),
                                  result = Inl (js ''Error: timeout'')\<rparr>)\<rparr>"

definition env_crash_once :: env where
  "env_crash_once =
     env_ok\<lparr>adapter := (\<lambda>n. if n = 0
        then \<lparr>events = [tool_event (js ''ls'')], effect = (\<lambda>s. s),
              result = Inl (js ''Error: process exited with code 1'')\<rparr>
        else \<lparr>events = [], effect = (\<lambda>s. s), result = Inr (js ''ok'')\<rparr>)\<rparr>"

definition state_one_tool :: StreamingState where
  "state_one_tool = new_StreamingState\<lparr>toolMessages := [\<lparr>chat_id = 1, message_id = 1\<rparr>]\<rparr>"

text \<open>Two environments in which the query is cancelled: in the first a message \<open>!next\<close>
  arrives while the query runs and its handler gets as far as \<open>checkInterrupt\<close>; in the
  second \<open>stop\<close> is called on the session.\<close>

definition env_interrupted :: env where
  "env_interrupted =
     env_ok\<lparr>adapter := (\<lambda>n. \<lparr>events = [],
                                effect = (\<lambda>s. fst (snd (checkInterrupt (js ''!next'') s []))),
                                result = Inl (js ''Error: query cancelled'')\<rparr>)\<rparr>"

definition env_stopped :: env where
  "env_stopped =
     env_ok\<lparr>adapter := (\<lambda>n. \<lparr>events = [], effect = stop,
                                result = Inl (js ''Error: query cancelled'')\<rparr>)\<rparr>"

text \<open>Two stand-ins for the conversion to HTML, which is not among the sources: one
  that escapes \<open>&\<close> as \<open>&amp;\<close> and so lengthens the text, and one that drops the
  emphasis marker \<open>*\<close> and so shortens it; and the environments that use them.\<close>

fun escape_amp :: "jsstring \<Rightarrow> jsstring" where
  "escape_amp [] = []"
| "escape_amp (c # s) = (if c = 0x26 then js ''&amp;'' else [c]) @ escape_amp s"

definition strip_stars :: "jsstring \<Rightarrow> jsstring" where
  "strip_stars s = filter (\<lambda>c. c \<noteq> 0x2A) s"

definition env_escaping :: env where
  "env_escaping = env_ok\<lparr>convertMarkdownToHtml := escape_amp\<rparr>"

definition env_stripping :: env where
  "env_stripping = env_ok\<lparr>convertMarkdownToHtml := strip_stars\<rparr>"

text \<open>A transport that rejects only the call at trace position 0, and one that rejects
  the calls at positions 1 and 2.\<close>

definition env_delete_rejected :: env where
  "env_delete_rejected = env_ok\<lparr>throws := (\<lambda>n. n = 0)\<rparr>"

definition env_chunk_rejected :: env where
  "env_chunk_rejected = env_ok\<lparr>throws := (\<lambda>n. n = 1 \<or> n = 2)\<rparr>"

text \<open>Three variants of the environment whose first query crashes: the second query fails
  with a timeout; the second query is cancelled by a message \<open>!next\<close>; the transport
  rejects the call at trace position 4.\<close>

definition env_crash_then_timeout :: env where
  "env_crash_then_timeout =
     env_crash_once\<lparr>adapter := (\<lambda>n. if n = 0 then adapter env_crash_once 0
        else \<lparr>events = [], effect = (\<lambda>s. s), result = Inl (js ''Error: timeout'')\<rparr>)\<rparr>"

definition env_crash_then_interrupted :: env where
  "env_crash_then_interrupted =
     env_crash_once\<lparr>adapter := (\<lambda>n. if n = 0 then adapter env_crash_once 0
        else adapter env_interrupted n)\<rparr>"

definition env_crash_notice_rejected :: env where
  "env_crash_notice_rejected = env_crash_once\<lparr>throws := (\<lambda>n. n = 4)\<rparr>"

section \<open>Heartbeat ticks\<close>

text \<open>
  Claim C8.  A heartbeat tick that finds a query running, or finds no session id, returns
  at once: the trace is the one before the tick, so \<open>sendMessageStreaming\<close> is not
  invoked, and the session and \<open>lastHeartbeat\<close> are the ones before the tick.  Nothing
  is stored for later: the tick is skipped.
\<close>

theorem heartbeat_tick_skipped:
  "isRunning s \<or> sessionId s = None \<Longrightarrow>
   runHeartbeat prompt out date s tr lastHeartbeat =
     (s, tr, lastHeartbeat,
      if sessionId s = None \<or> sessionId s = Some [] then No_active_session
      else Query_in_progress)"
  by (auto simp: runHeartbeat_def isActive_def)

theorem heartbeat_tick_skipped_witness:
  "isRunning running_session \<and>
   runHeartbeat (js ''ping'') (adapter env_ok 0) 7 running_session [] None =
     (running_session, [], None, Query_in_progress)"
  using heartbeat_tick_skipped [of running_session "js ''ping''" "adapter env_ok 0" 7 "[]" None]
  by (simp add: running_session_def idle_session_def js_def)

section \<open>The interrupt prefix\<close>

text \<open>
  Claim C10.  On an input that does not start with \<open>!\<close>, \<open>checkInterrupt\<close> returns the
  input and leaves session and trace as they were.  On an input that starts with \<open>!\<close>
  it returns the input without that character and without the white space that
  follows it; if a query is running it calls \<open>markInterrupt\<close>, then \<open>stop\<close>, then (after
  the pause) \<open>clearStopRequested\<close>, and if none is running it makes no call on the session.
\<close>

theorem checkInterrupt_frame:
  "(\<not> startsWith input (js ''!'') \<longrightarrow> checkInterrupt input s tr = (input, s, tr)) \<and>
   (startsWith input (js ''!'') \<longrightarrow>
      (case checkInterrupt input s tr of
         (stripped, s', tr') \<Rightarrow>
           stripped = dropWhile isWhiteSpace (tl input) \<and>
           (isRunning s \<longrightarrow>
              tr' = tr @ [(MarkInterrupt, True), (Stop, True), (Sleep 100, True),
                          (ClearStopRequested, True)] \<and>
              s' = s\<lparr>stopRequested := False, interruptRequested := True\<rparr>) \<and>
           (\<not> isRunning s \<longrightarrow> tr' = tr \<and> s' = s)))"
  by (cases input)
     (auto simp: checkInterrupt_def js_def trimStart_def Let_def markInterrupt_def stop_def
        clearStopRequested_def drop_Suc)

theorem checkInterrupt_frame_witness:
  "\<not> startsWith (js ''hello'') (js ''!'') \<and>
   checkInterrupt (js ''hello'') running_session [] = (js ''hello'', running_session, []) \<and>
   startsWith (js ''! stop'') (js ''!'') \<and> isRunning running_session \<and>
   checkInterrupt (js ''! stop'') running_session [] =
     (js ''stop'', running_session\<lparr>interruptRequested := True\<rparr>,
      [(MarkInterrupt, True), (Stop, True), (Sleep 100, True), (ClearStopRequested, True)]) \<and>
   \<not> isRunning idle_session \<and>
   checkInterrupt (js ''! stop'') idle_session [] = (js ''stop'', idle_session, [])"
  using checkInterrupt_frame [of "js ''hello''" running_session "[]"]
    checkInterrupt_frame [of "js ''! stop''" running_session "[]"]
    checkInterrupt_frame [of "js ''! stop''" idle_session "[]"]
  by (simp add: running_session_def idle_session_def js_def isWhiteSpace_def split: prod.splits)

section \<open>The status callback\<close>

subsection \<open>Transport errors\<close>

lemma delete_each_calls:
  "\<exists>ext. delete_each oracle ms tr = tr @ ext \<and>
         map fst ext = map (\<lambda>m. DeleteMessage (chat_id m) (message_id m)) ms"
proof (induction ms arbitrary: tr)
  case Nil
  then show ?case by simp
next
  case (Cons m ms)
  let ?tr1 = "tr @ [(DeleteMessage (chat_id m) (message_id m), \<not> oracle (length tr))]"
  from Cons.IH[of ?tr1] obtain ext where "delete_each oracle ms ?tr1 = ?tr1 @ ext"
    "map fst ext = map (\<lambda>m. DeleteMessage (chat_id m) (message_id m)) ms" by blast
  then show ?case
    by (intro exI[of _ "(DeleteMessage (chat_id m) (message_id m), \<not> oracle (length tr)) # ext"])
       (simp add: deleteMessage_def Let_def)
qed

text \<open>
  Claim C5.  Whatever the event and whatever the transport does, the status callback
  returns without throwing.  On \<open>done\<close> it attempts the deletion of every ephemeral
  message, in order, whether or not earlier deletions failed, and leaves the state as it
  was.
\<close>

theorem statusCallback_absorbs_errors:
  "snd (snd (statusCallback env chat ev tr st)) = False \<and>
   (e_statusType ev = js ''done'' \<longrightarrow>
      (\<exists>ext. statusCallback env chat ev tr st = (tr @ ext, st, False) \<and>
             map fst ext = map (\<lambda>m. DeleteMessage (chat_id m) (message_id m)) (toolMessages st)))"
proof
  show "snd (snd (statusCallback env chat ev tr st)) = False"
    by (simp add: statusCallback_def split: prod.splits bool.splits)
next
  show "e_statusType ev = js ''done'' \<longrightarrow>
      (\<exists>ext. statusCallback env chat ev tr st = (tr @ ext, st, False) \<and>
             map fst ext = map (\<lambda>m. DeleteMessage (chat_id m) (message_id m)) (toolMessages st))"
  proof
    assume d: "e_statusType ev = js ''done''"
    from delete_each_calls[of "throws env" "toolMessages st" tr] obtain ext where
      "delete_each (throws env) (toolMessages st) tr = tr @ ext"
      "map fst ext = map (\<lambda>m. DeleteMessage (chat_id m) (message_id m)) (toolMessages st)" by blast
    then show "\<exists>ext. statusCallback env chat ev tr st = (tr @ ext, st, False) \<and>
             map fst ext = map (\<lambda>m. DeleteMessage (chat_id m) (message_id m)) (toolMessages st)"
      using d by (simp add: statusCallback_def statusCallback_try_def on_done_def js_def)
  qed
qed

theorem statusCallback_absorbs_errors_witness:
  "snd (snd (statusCallback_try env_down 1 (tool_event (js ''x'')) [] new_StreamingState)) = True \<and>
   snd (snd (statusCallback env_down 1 (tool_event (js ''x'')) [] new_StreamingState)) = False \<and>
   e_statusType done_event = js ''done'' \<and>
   statusCallback env_down 1 done_event [] state_two_tools =
     ([(DeleteMessage 1 0, False), (DeleteMessage 1 1, False)], state_two_tools, False)"
  using statusCallback_absorbs_errors [of env_down 1 "tool_event (js ''x'')" "[]" new_StreamingState]
    statusCallback_absorbs_errors [of env_down 1 done_event "[]" state_two_tools]
  by (simp add: statusCallback_def statusCallback_try_def tool_event_def done_event_def on_tool_def on_done_def
      reply_def deleteMessage_def env_down_def env_ok_def state_two_tools_def new_StreamingState_def js_def)

subsection \<open>The end of a segment\<close>

lemma statusCallback_segment_end:
  "e_statusType ev = js ''segment_end'' \<Longrightarrow> e_segmentId ev = Some seg \<Longrightarrow>
   statusCallback_try env chat ev tr st = on_segment_end env chat (e_content ev) seg tr st"
  by (simp add: statusCallback_try_def js_def)

lemma split_loop_replies:
  "\<exists>ext. fst (split_loop env chat f i tr) = tr @ ext \<and> (\<forall>e \<in> set ext. is_reply (fst e))"
proof (induction env chat f i tr rule: split_loop.induct)
  case (1 env chat f i tr)
  let ?chunk = "slice f i (i + TELEGRAM_SAFE_LIMIT)"
  show ?case
  proof (cases "i < length f")
    case False
    then show ?thesis by (simp add: split_loop.simps[of env chat f i tr])
  next
    case True
    show ?thesis
    proof (cases "throws env (length tr)")
      case ok: False
      let ?tr1 = "tr @ [(Reply ?chunk True, True)]"
      have r1: "(?tr1, Some \<lparr>chat_id = chat, message_id = length tr\<rparr>) =
                reply (throws env) chat ?chunk True tr"
        using ok by (simp add: reply_def)
      from "1.IH"(2)[OF True refl r1 refl] obtain ext where
        "fst (split_loop env chat f (i + TELEGRAM_SAFE_LIMIT) ?tr1) = ?tr1 @ ext"
        "\<forall>e \<in> set ext. is_reply (fst e)" by blast
      with True ok show ?thesis
        by (intro exI[of _ "(Reply ?chunk True, True) # ext"])
           (simp add: split_loop.simps[of env chat f i tr] reply_def Let_def is_reply_def)
    next
      case bad: True
      let ?tr1 = "tr @ [(Reply ?chunk True, False)]"
      show ?thesis
      proof (cases "throws env (Suc (length tr))")
        case True
        with \<open>i < length f\<close> bad show ?thesis
          by (intro exI[of _ "[(Reply ?chunk True, False), (Reply ?chunk False, False)]"])
             (simp add: split_loop.simps[of env chat f i tr] reply_def Let_def is_reply_def)
      next
        case ok2: False
        let ?tr2 = "?tr1 @ [(Reply ?chunk False, True)]"
        have r1: "(?tr1, None) = reply (throws env) chat ?chunk True tr"
          using bad by (simp add: reply_def)
        have r2: "(?tr2, Some \<lparr>chat_id = chat, message_id = length ?tr1\<rparr>) =
                  reply (throws env) chat ?chunk False ?tr1"
          using ok2 by (simp add: reply_def)
        from "1.IH"(1)[OF \<open>i < length f\<close> refl r1 refl r2 refl] obtain ext where
          "fst (split_loop env chat f (i + TELEGRAM_SAFE_LIMIT) ?tr2) = ?tr2 @ ext"
          "\<forall>e \<in> set ext. is_reply (fst e)" by blast
        with \<open>i < length f\<close> bad ok2 show ?thesis
          by (intro exI[of _ "(Reply ?chunk True, False) # (Reply ?chunk False, True) # ext"])
             (simp add: split_loop.simps[of env chat f i tr] reply_def Let_def is_reply_def)
      qed
    qed
  qed
qed

lemma split_loop_first_chunk:
  "0 < length f \<Longrightarrow>
   \<exists>rest. fst (split_loop env chat f 0 tr) =
            tr @ (Reply (slice f 0 TELEGRAM_SAFE_LIMIT) True, \<not> throws env (length tr)) # rest \<and>
          (\<forall>e \<in> set rest. is_reply (fst e))"
proof -
  assume pos: "0 < length f"
  from split_loop_replies [of env chat f 0 tr] obtain ext where
    ext: "fst (split_loop env chat f 0 tr) = tr @ ext" "\<forall>e \<in> set ext. is_reply (fst e)" by blast
  let ?chunk = "slice f 0 TELEGRAM_SAFE_LIMIT"
  let ?tr1 = "tr @ [(Reply ?chunk True, \<not> throws env (length tr))]"
  show ?thesis
  proof (cases "throws env (length tr)")
    case False
    from split_loop_replies [of env chat f TELEGRAM_SAFE_LIMIT ?tr1] obtain ext1 where
      e1: "fst (split_loop env chat f TELEGRAM_SAFE_LIMIT ?tr1) = ?tr1 @ ext1"
      "\<forall>e \<in> set ext1. is_reply (fst e)" by blast
    with pos False show ?thesis
      by (subst split_loop.simps) (simp add: reply_def Let_def)
  next
    case True
    let ?tr2 = "?tr1 @ [(Reply ?chunk False, \<not> throws env (Suc (length tr)))]"
    from split_loop_replies [of env chat f TELEGRAM_SAFE_LIMIT ?tr2] obtain ext2 where
      e2: "fst (split_loop env chat f TELEGRAM_SAFE_LIMIT ?tr2) = ?tr2 @ ext2"
      "\<forall>e \<in> set ext2. is_reply (fst e)" by blast
    have r: "is_reply (Reply t h)" for t h by (simp add: is_reply_def)
    show ?thesis
    proof (cases "throws env (Suc (length tr))")
      case rejected: True
      with pos True r show ?thesis
        by (subst split_loop.simps) (simp add: reply_def Let_def)
    next
      case False
      with pos True e2 r show ?thesis
        by (subst split_loop.simps) (simp add: reply_def Let_def)
    qed
  qed
qed

lemma escape_amp_append: "escape_amp (a @ b) = escape_amp a @ escape_amp b"
  by (induction a) simp_all

lemma escape_amp_plain: "escape_amp (replicate n 0x61) = replicate n 0x61"
  by (induction n) simp_all

lemma split_loop_two_chunks:
  assumes "length f \<le> 2 * TELEGRAM_SAFE_LIMIT" "TELEGRAM_SAFE_LIMIT < length f"
    and "\<not> throws env (length tr)" "\<not> throws env (Suc (length tr))"
  shows "split_loop env chat f 0 tr =
           (tr @ [(Reply (take TELEGRAM_SAFE_LIMIT f) True, True),
                  (Reply (drop TELEGRAM_SAFE_LIMIT f) True, True)], False)"
proof -
  let ?tr1 = "tr @ [(Reply (take TELEGRAM_SAFE_LIMIT f) True, True)]"
  let ?tr2 = "?tr1 @ [(Reply (drop TELEGRAM_SAFE_LIMIT f) True, True)]"
  have three: "split_loop env chat f (2 * TELEGRAM_SAFE_LIMIT) ?tr2 = (?tr2, False)"
    using assms(1) by (subst split_loop.simps) simp
  have two: "split_loop env chat f TELEGRAM_SAFE_LIMIT ?tr1 = (?tr2, False)"
    using assms three
    by (subst split_loop.simps) (simp add: reply_def slice_def Let_def mult_2)
  have pos: "f \<noteq> []" using assms(2) by auto
  show ?thesis
    using assms two pos
    by (subst split_loop.simps) (simp add: reply_def slice_def Let_def)
qed

text \<open>
  Claim C3, as the code has it.  A \<open>segment_end\<close> for a segment that has a message, with
  non-empty content, always issues a render call, whatever the clock and the time of the
  last update.  When the content converted by \<open>convertMarkdownToHtml\<close> is within
  \<open>TELEGRAM_MESSAGE_LIMIT\<close>, the callback makes exactly one call: the edit of the
  segment's message to the complete converted content.  When the converted content is
  longer, its first two calls are the deletion of the segment's message and the send of
  the first chunk, the first \<open>TELEGRAM_SAFE_LIMIT\<close> code units of the converted content,
  and every later call is a send.  For a segment without a message, or with empty content,
  it makes no call and changes nothing.
\<close>

theorem segment_end_bypasses_throttle:
  assumes ev: "e_statusType ev = js ''segment_end''" "e_segmentId ev = Some seg"
  shows "(textMessages st seg = Some msg \<and> e_content ev \<noteq> [] \<longrightarrow>
            (length (convertMarkdownToHtml env (e_content ev)) \<le> TELEGRAM_MESSAGE_LIMIT \<longrightarrow>
               statusCallback env chat ev tr st =
                 (tr @ [(EditMessageText (chat_id msg) (message_id msg)
                           (convertMarkdownToHtml env (e_content ev)) True,
                         \<not> throws env (length tr))], st, False)) \<and>
            (length (convertMarkdownToHtml env (e_content ev)) > TELEGRAM_MESSAGE_LIMIT \<longrightarrow>
               (\<exists>rest. fst (statusCallback env chat ev tr st) =
                  tr @ (DeleteMessage (chat_id msg) (message_id msg), \<not> throws env (length tr)) #
                       (Reply (slice (convertMarkdownToHtml env (e_content ev)) 0 TELEGRAM_SAFE_LIMIT)
                          True, \<not> throws env (Suc (length tr))) # rest \<and>
                  (\<forall>e \<in> set rest. is_reply (fst e))))) \<and>
         (textMessages st seg = None \<or> e_content ev = [] \<longrightarrow>
            statusCallback env chat ev tr st = (tr, st, False))"
proof (intro conjI impI)
  assume "textMessages st seg = Some msg \<and> e_content ev \<noteq> []"
    and "length (convertMarkdownToHtml env (e_content ev)) \<le> TELEGRAM_MESSAGE_LIMIT"
  then show "statusCallback env chat ev tr st =
              (tr @ [(EditMessageText (chat_id msg) (message_id msg)
                        (convertMarkdownToHtml env (e_content ev)) True,
                      \<not> throws env (length tr))], st, False)"
    by (simp add: statusCallback_def statusCallback_segment_end [OF ev] on_segment_end_def
        editMessageText_def Let_def)
next
  let ?f = "convertMarkdownToHtml env (e_content ev)"
  let ?tr1 = "tr @ [(DeleteMessage (chat_id msg) (message_id msg), \<not> throws env (length tr))]"
  assume has: "textMessages st seg = Some msg \<and> e_content ev \<noteq> []"
    and long: "length ?f > TELEGRAM_MESSAGE_LIMIT"
  then have pos: "0 < length ?f" by (auto simp: TELEGRAM_MESSAGE_LIMIT_def)
  from split_loop_first_chunk [OF pos, of env chat ?tr1] obtain rest
    where rest: "fst (split_loop env chat ?f 0 ?tr1) =
                   ?tr1 @ (Reply (slice ?f 0 TELEGRAM_SAFE_LIMIT) True,
                           \<not> throws env (length ?tr1)) # rest"
      "\<forall>e \<in> set rest. is_reply (fst e)" by blast
  have "fst (statusCallback env chat ev tr st) = fst (split_loop env chat ?f 0 ?tr1)"
    using has long
    by (simp add: statusCallback_def statusCallback_segment_end [OF ev] on_segment_end_def
        deleteMessage_def Let_def split: prod.splits bool.splits)
  with rest show "\<exists>rest. fst (statusCallback env chat ev tr st) =
                  tr @ (DeleteMessage (chat_id msg) (message_id msg), \<not> throws env (length tr)) #
                       (Reply (slice ?f 0 TELEGRAM_SAFE_LIMIT) True,
                        \<not> throws env (Suc (length tr))) # rest \<and>
                  (\<forall>e \<in> set rest. is_reply (fst e))"
    by simp
next
  assume "textMessages st seg = None \<or> e_content ev = []"
  then show "statusCallback env chat ev tr st = (tr, st, False)"
    by (auto simp: statusCallback_def statusCallback_segment_end [OF ev] on_segment_end_def
        split: option.splits)
qed

theorem segment_end_bypasses_throttle_witness:
  "e_statusType (segment_end_event 1 (js ''final'')) = js ''segment_end'' \<and>
   e_segmentId (segment_end_event 1 (js ''final'')) = Some 1 \<and>
   textMessages state_with_message 1 = Some \<lparr>chat_id = 1, message_id = 0\<rparr> \<and>
   e_content (segment_end_event 1 (js ''final'')) \<noteq> [] \<and>
   length (convertMarkdownToHtml env_ok (e_content (segment_end_event 1 (js ''final''))))
     \<le> TELEGRAM_MESSAGE_LIMIT \<and>
   statusCallback env_ok 1 (segment_end_event 1 (js ''final'')) [] state_with_message =
     ([(EditMessageText 1 0 (js ''final'') True, True)], state_with_message, False) \<and>
   length (convertMarkdownToHtml env_ok (e_content (segment_end_event 1 long_text)))
     > TELEGRAM_MESSAGE_LIMIT \<and>
   take 2 (fst (statusCallback env_ok 1 (segment_end_event 1 long_text) [] state_with_message)) =
     [(DeleteMessage 1 0, True), (Reply (replicate 4000 0x61) True, True)] \<and>
   textMessages new_StreamingState 1 = None \<and>
   statusCallback env_ok 1 (segment_end_event 1 (js ''final'')) [] new_StreamingState =
     ([], new_StreamingState, False)"
proof -
  have a: "statusCallback env_ok 1 (segment_end_event 1 (js ''final'')) [] state_with_message =
     ([(EditMessageText 1 0 (js ''final'') True, True)], state_with_message, False)"
    using segment_end_bypasses_throttle [of "segment_end_event 1 (js ''final'')" 1
        state_with_message "\<lparr>chat_id = 1, message_id = 0\<rparr>" env_ok 1 "[]"]
    by (simp add: segment_end_event_def state_with_message_def new_StreamingState_def
        env_ok_def TELEGRAM_MESSAGE_LIMIT_def js_def)
  have b: "take 2 (fst (statusCallback env_ok 1 (segment_end_event 1 long_text) []
              state_with_message)) =
     [(DeleteMessage 1 0, True), (Reply (replicate 4000 0x61) True, True)]"
    using segment_end_bypasses_throttle [of "segment_end_event 1 long_text" 1
        state_with_message "\<lparr>chat_id = 1, message_id = 0\<rparr>" env_ok 1 "[]"]
    by (auto simp: segment_end_event_def state_with_message_def new_StreamingState_def
        env_ok_def TELEGRAM_MESSAGE_LIMIT_def TELEGRAM_SAFE_LIMIT_def js_def long_text_def
        slice_def)
  have c: "statusCallback env_ok 1 (segment_end_event 1 (js ''final'')) [] new_StreamingState =
     ([], new_StreamingState, False)"
    using segment_end_bypasses_throttle [of "segment_end_event 1 (js ''final'')" 1
        new_StreamingState "\<lparr>chat_id = 1, message_id = 0\<rparr>" env_ok 1 "[]"]
    by (simp add: segment_end_event_def new_StreamingState_def js_def)
  from a b c show ?thesis
    by (simp add: segment_end_event_def state_with_message_def new_StreamingState_def
        env_ok_def TELEGRAM_MESSAGE_LIMIT_def js_def long_text_def)
qed

text \<open>
  Claim C3 as stated also covers a segment without a message and an empty content.
  There the callback issues no call: the guard
  \<open>state.textMessages.has(segmentId) && content\<close> skips the whole branch.  It also
  speaks of the content where the code uses the converted content: with a conversion that
  escapes \<open>&\<close>, the edit carries the escaped text, and a content of 4096 code units,
  which fits, is converted to 4100 code units and is split, not edited.
\<close>

theorem segment_end_no_message_counterexample:
  "statusCallback env_ok 1 (segment_end_event 1 (js ''final text'')) [] new_StreamingState =
     ([], new_StreamingState, False) \<and>
   statusCallback env_ok 1 (segment_end_event 1 []) [] state_with_message =
     ([], state_with_message, False) \<and>
   statusCallback env_escaping 1 (segment_end_event 1 (js ''a&b'')) [] state_with_message =
     ([(EditMessageText 1 0 (js ''a&amp;b'') True, True)], state_with_message, False) \<and>
   length (replicate 4095 0x61 @ js ''&'') = 4096 \<and>
   statusCallback env_escaping 1 (segment_end_event 1 (replicate 4095 0x61 @ js ''&'')) []
       state_with_message =
     ([(DeleteMessage 1 0, True), (Reply (replicate 4000 0x61) True, True),
       (Reply (replicate 95 0x61 @ js ''&amp;'') True, True)], state_with_message, False)"
proof -
  have a: "statusCallback env_ok 1 (segment_end_event 1 (js ''final text'')) []
             new_StreamingState = ([], new_StreamingState, False)"
    and b: "statusCallback env_ok 1 (segment_end_event 1 []) [] state_with_message =
             ([], state_with_message, False)"
    and c: "statusCallback env_escaping 1 (segment_end_event 1 (js ''a&b'')) []
              state_with_message =
            ([(EditMessageText 1 0 (js ''a&amp;b'') True, True)], state_with_message, False)"
    by (simp_all add: statusCallback_def statusCallback_segment_end segment_end_event_def
        on_segment_end_def new_StreamingState_def state_with_message_def env_escaping_def
        env_ok_def editMessageText_def TELEGRAM_MESSAGE_LIMIT_def js_def)
  let ?f = "replicate 4095 0x61 @ js ''&amp;''"
  have conv: "escape_amp (replicate 4095 0x61 @ js ''&'') = ?f"
    by (simp add: escape_amp_append escape_amp_plain) (simp add: js_def)
  have sl: "split_loop env_escaping 1 ?f 0 [(DeleteMessage 1 0, True)] =
            ([(DeleteMessage 1 0, True)] @
             [(Reply (take TELEGRAM_SAFE_LIMIT ?f) True, True),
              (Reply (drop TELEGRAM_SAFE_LIMIT ?f) True, True)], False)"
    by (rule split_loop_two_chunks)
       (simp_all add: TELEGRAM_SAFE_LIMIT_def env_escaping_def env_ok_def js_def)
  have d: "statusCallback env_escaping 1 (segment_end_event 1 (replicate 4095 0x61 @ js ''&'')) []
       state_with_message =
     ([(DeleteMessage 1 0, True), (Reply (replicate 4000 0x61) True, True),
       (Reply (replicate 95 0x61 @ js ''&amp;'') True, True)], state_with_message, False)"
  proof -
    have ne: "replicate 4095 0x61 @ js ''&'' \<noteq> []" by simp
    have cv: "convertMarkdownToHtml env_escaping (replicate 4095 0x61 @ js ''&'') = ?f"
      using conv by (simp add: env_escaping_def)
    have len: "\<not> length ?f \<le> TELEGRAM_MESSAGE_LIMIT"
      by (simp add: TELEGRAM_MESSAGE_LIMIT_def js_def)
    have th: "\<not> throws env_escaping 0" by (simp add: env_escaping_def env_ok_def)
    have m: "textMessages state_with_message 1 = Some \<lparr>chat_id = 1, message_id = 0\<rparr>"
      by (simp add: state_with_message_def new_StreamingState_def)
    have tk: "take TELEGRAM_SAFE_LIMIT ?f = replicate 4000 0x61"
      and dr: "drop TELEGRAM_SAFE_LIMIT ?f = replicate 95 0x61 @ js ''&amp;''"
      by (simp_all add: TELEGRAM_SAFE_LIMIT_def)
    show ?thesis
      using ne len th m sl [unfolded tk dr]
      by (simp add: statusCallback_def statusCallback_segment_end segment_end_event_def
          on_segment_end_def cv deleteMessage_def Let_def)
  qed
  have l: "length (replicate 4095 0x61 @ js ''&'') = 4096" by (simp add: js_def)
  from a b c d l show ?thesis by (simp only: simp_thms)
qed

subsection \<open>Splitting an over-long segment\<close>

lemma split_loop_delivers:
  "split_loop env chat f i tr = (tr', False) \<Longrightarrow>
   \<exists>ext. tr' = tr @ ext \<and> concat (delivered ext) = drop i f \<and>
         (\<forall>c \<in> set (delivered ext). length c \<le> TELEGRAM_SAFE_LIMIT) \<and>
         (\<forall>e \<in> set ext. is_reply (fst e))"
proof (induction env chat f i tr rule: split_loop.induct)
  case (1 env chat f i tr)
  show ?case
  proof (cases "i < length f")
    case False
    with "1.prems" show ?thesis by (simp add: split_loop.simps[of env chat f i tr])
  next
    case True
    let ?chunk = "slice f i (i + TELEGRAM_SAFE_LIMIT)"
    have chunk: "?chunk @ drop (i + TELEGRAM_SAFE_LIMIT) f = drop i f"
    proof -
      have "drop (i + TELEGRAM_SAFE_LIMIT) f = drop TELEGRAM_SAFE_LIMIT (drop i f)"
        by (simp only: drop_drop add.commute)
      then show ?thesis by (simp only: slice_def add_diff_cancel_left' append_take_drop_id)
    qed
    have len: "length ?chunk \<le> TELEGRAM_SAFE_LIMIT" by (simp add: slice_def)
    show ?thesis
    proof (cases "throws env (length tr)")
      case ok: False
      let ?tr1 = "tr @ [(Reply ?chunk True, True)]"
      have r1: "(?tr1, Some \<lparr>chat_id = chat, message_id = length tr\<rparr>) =
                reply (throws env) chat ?chunk True tr"
        using ok by (simp add: reply_def)
      from True ok "1.prems" have rec: "split_loop env chat f (i + TELEGRAM_SAFE_LIMIT) ?tr1 = (tr', False)"
        by (simp add: split_loop.simps[of env chat f i tr] reply_def Let_def)
      from "1.IH"(2)[OF True refl r1 refl rec]
      obtain ext where ext: "tr' = ?tr1 @ ext" "concat (delivered ext) = drop (i + TELEGRAM_SAFE_LIMIT) f"
        "\<forall>c \<in> set (delivered ext). length c \<le> TELEGRAM_SAFE_LIMIT" "\<forall>e \<in> set ext. is_reply (fst e)" by blast
      show ?thesis
        apply (rule exI[of _ "(Reply ?chunk True, True) # ext"])
        using ext chunk len by (simp add: is_reply_def)
    next
      case bad: True
      show ?thesis
      proof (cases "throws env (Suc (length tr))")
        case True
        with \<open>i < length f\<close> bad "1.prems" show ?thesis
          by (simp add: split_loop.simps[of env chat f i tr] reply_def Let_def)
      next
        case ok2: False
        let ?tr1 = "tr @ [(Reply ?chunk True, False)]"
        let ?tr2 = "?tr1 @ [(Reply ?chunk False, True)]"
        have r1: "(?tr1, None) = reply (throws env) chat ?chunk True tr"
          using bad by (simp add: reply_def)
        have r2: "(?tr2, Some \<lparr>chat_id = chat, message_id = length ?tr1\<rparr>) =
                  reply (throws env) chat ?chunk False ?tr1"
          using ok2 by (simp add: reply_def)
        from \<open>i < length f\<close> bad ok2 "1.prems"
        have rec: "split_loop env chat f (i + TELEGRAM_SAFE_LIMIT) ?tr2 = (tr', False)"
          by (simp add: split_loop.simps[of env chat f i tr] reply_def Let_def)
        from "1.IH"(1)[OF \<open>i < length f\<close> refl r1 refl r2 refl rec]
        obtain ext where ext: "tr' = ?tr2 @ ext" "concat (delivered ext) = drop (i + TELEGRAM_SAFE_LIMIT) f"
          "\<forall>c \<in> set (delivered ext). length c \<le> TELEGRAM_SAFE_LIMIT" "\<forall>e \<in> set ext. is_reply (fst e)" by blast
        show ?thesis
          apply (rule exI[of _ "(Reply ?chunk True, False) # (Reply ?chunk False, True) # ext"])
          using ext chunk len by (simp add: is_reply_def)
      qed
    qed
  qed
qed

lemma split_loop_completes:
  "\<forall>n. throws env n \<longrightarrow> \<not> throws env (Suc n) \<Longrightarrow> snd (split_loop env chat f i tr) = False"
proof (induction env chat f i tr rule: split_loop.induct)
  case (1 env chat f i tr)
  let ?chunk = "slice f i (i + TELEGRAM_SAFE_LIMIT)"
  show ?case
  proof (cases "i < length f")
    case False
    then show ?thesis by (simp add: split_loop.simps[of env chat f i tr])
  next
    case True
    show ?thesis
    proof (cases "throws env (length tr)")
      case ok: False
      let ?tr1 = "tr @ [(Reply ?chunk True, True)]"
      have r1: "(?tr1, Some \<lparr>chat_id = chat, message_id = length tr\<rparr>) =
                reply (throws env) chat ?chunk True tr"
        using ok by (simp add: reply_def)
      from "1.IH"(2)[OF True refl r1 refl "1.prems"] True ok show ?thesis
        by (simp add: split_loop.simps[of env chat f i tr] reply_def Let_def)
    next
      case bad: True
      with "1.prems" have ok2: "\<not> throws env (Suc (length tr))" by blast
      let ?tr1 = "tr @ [(Reply ?chunk True, False)]"
      let ?tr2 = "?tr1 @ [(Reply ?chunk False, True)]"
      have r1: "(?tr1, None) = reply (throws env) chat ?chunk True tr"
        using bad by (simp add: reply_def)
      have r2: "(?tr2, Some \<lparr>chat_id = chat, message_id = length ?tr1\<rparr>) =
                reply (throws env) chat ?chunk False ?tr1"
        using ok2 by (simp add: reply_def)
      from "1.IH"(1)[OF True refl r1 refl r2 refl "1.prems"] True bad ok2 show ?thesis
        by (simp add: split_loop.simps[of env chat f i tr] reply_def Let_def)
    qed
  qed
qed

lemma no_double_rejection_completes:
  assumes ev: "e_statusType ev = js ''segment_end''" "e_segmentId ev = Some seg"
    and transport: "\<forall>n. throws env n \<longrightarrow> \<not> throws env (Suc n)"
  shows "snd (snd (statusCallback_try env chat ev tr st)) = False"
proof -
  have c: "snd (split_loop env chat f i t) = False" for f i t
    by (rule split_loop_completes [OF transport])
  have d: "split_loop env chat f i t = (a, b) \<Longrightarrow> b = False" for f i t a b
    using c [of f i t] by simp
  show ?thesis
    by (auto simp: statusCallback_segment_end [OF ev] on_segment_end_def Let_def
        split: option.splits prod.splits dest: d)
qed

text \<open>
  Claim C4, as the code has it.  A \<open>segment_end\<close> for a segment that has a message, with
  non-empty content whose conversion by \<open>convertMarkdownToHtml\<close> is longer than
  \<open>TELEGRAM_MESSAGE_LIMIT\<close>.  A chunk whose HTML send is rejected is sent again as plain
  text; when that send is rejected too, the exception ends the branch.  If this does not
  happen, that is, if the \<open>try\<close> block of the callback ends without an exception, then
  the callback first issues the deletion of the segment's message (a rejection of which
  it ignores) and then only sends new messages; the texts of the messages created, in
  order, are each at most \<open>TELEGRAM_SAFE_LIMIT\<close> long and concatenate to the converted
  content.  The lemma before the theorem shows that the \<open>try\<close> block ends without an
  exception whenever the transport never rejects two calls in a row.
\<close>

theorem segment_end_overflow_split:
  assumes ev: "e_statusType ev = js ''segment_end''" "e_segmentId ev = Some seg"
    and msg: "textMessages st seg = Some msg"
    and nonempty: "e_content ev \<noteq> []"
    and long: "length (convertMarkdownToHtml env (e_content ev)) > TELEGRAM_MESSAGE_LIMIT"
    and completed: "snd (snd (statusCallback_try env chat ev tr st)) = False"
  shows "\<exists>rest. statusCallback env chat ev tr st =
            (tr @ (DeleteMessage (chat_id msg) (message_id msg), \<not> throws env (length tr)) # rest,
             st, False) \<and>
          (\<forall>e \<in> set rest. is_reply (fst e)) \<and>
          concat (delivered rest) = convertMarkdownToHtml env (e_content ev) \<and>
          (\<forall>c \<in> set (delivered rest). length c \<le> TELEGRAM_SAFE_LIMIT)"
proof -
  let ?f = "convertMarkdownToHtml env (e_content ev)"
  let ?tr1 = "tr @ [(DeleteMessage (chat_id msg) (message_id msg), \<not> throws env (length tr))]"
  obtain tr2 threw where sl: "split_loop env chat ?f 0 ?tr1 = (tr2, threw)"
    by (cases "split_loop env chat ?f 0 ?tr1")
  have tried: "statusCallback_try env chat ev tr st = (tr2, st, threw)"
    using msg nonempty long sl
    by (simp add: statusCallback_segment_end [OF ev] on_segment_end_def deleteMessage_def Let_def)
  from tried completed have "threw = False" by simp
  with sl have sl': "split_loop env chat ?f 0 ?tr1 = (tr2, False)" by simp
  from split_loop_delivers [OF sl'] obtain ext where
    ext: "tr2 = ?tr1 @ ext" "concat (delivered ext) = ?f"
    "\<forall>c \<in> set (delivered ext). length c \<le> TELEGRAM_SAFE_LIMIT"
    "\<forall>e \<in> set ext. is_reply (fst e)" by auto
  have "statusCallback env chat ev tr st = (tr2, st, False)"
    using tried \<open>threw = False\<close> by (simp add: statusCallback_def)
  with ext show ?thesis by auto
qed

theorem segment_end_overflow_split_witness:
  "e_statusType (segment_end_event 1 long_text) = js ''segment_end'' \<and>
   e_segmentId (segment_end_event 1 long_text) = Some 1 \<and>
   textMessages state_with_message 1 = Some \<lparr>chat_id = 1, message_id = 0\<rparr> \<and>
   e_content (segment_end_event 1 long_text) \<noteq> [] \<and>
   length (convertMarkdownToHtml env_flaky (e_content (segment_end_event 1 long_text)))
     > TELEGRAM_MESSAGE_LIMIT \<and>
   throws env_flaky 1 \<and>
   snd (snd (statusCallback_try env_flaky 1 (segment_end_event 1 long_text) []
      state_with_message)) = False \<and>
   take 1 (fst (statusCallback env_flaky 1 (segment_end_event 1 long_text) []
      state_with_message)) = [(DeleteMessage 1 0, True)] \<and>
   concat (delivered (drop 1 (fst (statusCallback env_flaky 1 (segment_end_event 1 long_text) []
      state_with_message)))) = long_text"
proof -
  have ev: "e_statusType (segment_end_event 1 long_text) = js ''segment_end''"
    "e_segmentId (segment_end_event 1 long_text) = Some 1"
    by (simp_all add: segment_end_event_def)
  have t: "\<forall>n. throws env_flaky n \<longrightarrow> \<not> throws env_flaky (Suc n)"
    by (simp add: env_flaky_def env_ok_def)
  have fin: "snd (snd (statusCallback_try env_flaky 1 (segment_end_event 1 long_text) []
      state_with_message)) = False"
    by (rule no_double_rejection_completes [OF ev t])
  have m: "textMessages state_with_message 1 = Some \<lparr>chat_id = 1, message_id = 0\<rparr>"
    by (simp add: state_with_message_def new_StreamingState_def)
  have ne: "e_content (segment_end_event 1 long_text) \<noteq> []"
    by (simp add: segment_end_event_def long_text_def)
  have long: "length (convertMarkdownToHtml env_flaky (e_content (segment_end_event 1 long_text)))
     > TELEGRAM_MESSAGE_LIMIT"
    by (simp add: segment_end_event_def long_text_def env_flaky_def env_ok_def
        TELEGRAM_MESSAGE_LIMIT_def)
  from segment_end_overflow_split [OF ev m ne long fin]
  have "take 1 (fst (statusCallback env_flaky 1 (segment_end_event 1 long_text) []
            state_with_message)) = [(DeleteMessage 1 0, True)] \<and>
        concat (delivered (drop 1 (fst (statusCallback env_flaky 1 (segment_end_event 1 long_text)
            [] state_with_message)))) = long_text"
    by (auto simp: segment_end_event_def env_flaky_def env_ok_def)
  with ev m ne long fin show ?thesis
    by (simp add: env_flaky_def env_ok_def)
qed

text \<open>
  Claim C4 as stated fails in five ways.  When both sends of a chunk are rejected, the
  message has been deleted and nothing is delivered.  When the deletion is rejected, the
  chunks are sent all the same, beside the message that is still there.  With a
  conversion that escapes \<open>&\<close>, the chunks concatenate to the converted content, not to
  the content.  With a conversion that drops \<open>*\<close>, a content of 4097 code units is
  converted to 4095 and is edited in place, not split.  And for a segment without a
  message nothing is deleted and nothing is sent.
\<close>

theorem segment_end_overflow_counterexample:
  "statusCallback env_chunk_rejected 1 (segment_end_event 1 long_text) [] state_with_message =
     ([(DeleteMessage 1 0, True), (Reply (replicate 4000 0x61) True, False),
       (Reply (replicate 4000 0x61) False, False)], state_with_message, False) \<and>
   statusCallback env_delete_rejected 1 (segment_end_event 1 long_text) [] state_with_message =
     ([(DeleteMessage 1 0, False), (Reply (replicate 4000 0x61) True, True),
       (Reply (replicate 97 0x61) True, True)], state_with_message, False) \<and>
   length (long_text @ js ''&'') = 4098 \<and>
   statusCallback env_escaping 1 (segment_end_event 1 (long_text @ js ''&'')) []
       state_with_message =
     ([(DeleteMessage 1 0, True), (Reply (replicate 4000 0x61) True, True),
       (Reply (replicate 97 0x61 @ js ''&amp;'') True, True)], state_with_message, False) \<and>
   length (js ''**'' @ replicate 4095 0x61) = 4097 \<and>
   statusCallback env_stripping 1 (segment_end_event 1 (js ''**'' @ replicate 4095 0x61)) []
       state_with_message =
     ([(EditMessageText 1 0 (replicate 4095 0x61) True, True)], state_with_message, False) \<and>
   statusCallback env_ok 1 (segment_end_event 1 long_text) [] new_StreamingState =
     ([], new_StreamingState, False)"
proof -
  have m: "textMessages state_with_message 1 = Some \<lparr>chat_id = 1, message_id = 0\<rparr>"
    by (simp add: state_with_message_def new_StreamingState_def)
  have one: "statusCallback env_chunk_rejected 1 (segment_end_event 1 long_text) []
      state_with_message =
     ([(DeleteMessage 1 0, True), (Reply (replicate 4000 0x61) True, False),
       (Reply (replicate 4000 0x61) False, False)], state_with_message, False)"
  proof -
    have "split_loop env_chunk_rejected 1 long_text 0 [(DeleteMessage 1 0, True)] =
          ([(DeleteMessage 1 0, True), (Reply (replicate 4000 0x61) True, False),
            (Reply (replicate 4000 0x61) False, False)], True)"
      by (subst split_loop.simps)
         (simp add: env_chunk_rejected_def env_ok_def long_text_def reply_def slice_def
            TELEGRAM_SAFE_LIMIT_def Let_def)
    then show ?thesis
      by (simp add: statusCallback_def statusCallback_segment_end segment_end_event_def
          on_segment_end_def state_with_message_def new_StreamingState_def env_chunk_rejected_def
          env_ok_def deleteMessage_def TELEGRAM_MESSAGE_LIMIT_def long_text_def Let_def)
  qed
  have two: "statusCallback env_delete_rejected 1 (segment_end_event 1 long_text) []
      state_with_message =
     ([(DeleteMessage 1 0, False), (Reply (replicate 4000 0x61) True, True),
       (Reply (replicate 97 0x61) True, True)], state_with_message, False)"
  proof -
    have sl: "split_loop env_delete_rejected 1 long_text 0 [(DeleteMessage 1 0, False)] =
            ([(DeleteMessage 1 0, False)] @
             [(Reply (take TELEGRAM_SAFE_LIMIT long_text) True, True),
              (Reply (drop TELEGRAM_SAFE_LIMIT long_text) True, True)], False)"
      by (rule split_loop_two_chunks)
         (simp_all add: TELEGRAM_SAFE_LIMIT_def env_delete_rejected_def env_ok_def long_text_def)
    have cv: "convertMarkdownToHtml env_delete_rejected long_text = long_text"
      by (simp add: env_delete_rejected_def env_ok_def)
    have ne: "long_text \<noteq> []" by (simp add: long_text_def)
    have len: "\<not> length long_text \<le> TELEGRAM_MESSAGE_LIMIT"
      by (simp add: TELEGRAM_MESSAGE_LIMIT_def long_text_def)
    have th: "throws env_delete_rejected 0" by (simp add: env_delete_rejected_def env_ok_def)
    have tk: "take TELEGRAM_SAFE_LIMIT long_text = replicate 4000 0x61"
      and dr: "drop TELEGRAM_SAFE_LIMIT long_text = replicate 97 0x61"
      by (simp_all add: TELEGRAM_SAFE_LIMIT_def long_text_def)
    show ?thesis
      using ne len th m sl [unfolded tk dr]
      by (simp add: statusCallback_def statusCallback_segment_end segment_end_event_def
          on_segment_end_def cv deleteMessage_def Let_def)
  qed
  let ?f = "long_text @ js ''&amp;''"
  have three: "statusCallback env_escaping 1 (segment_end_event 1 (long_text @ js ''&'')) []
       state_with_message =
     ([(DeleteMessage 1 0, True), (Reply (replicate 4000 0x61) True, True),
       (Reply (replicate 97 0x61 @ js ''&amp;'') True, True)], state_with_message, False)"
  proof -
    have cv: "convertMarkdownToHtml env_escaping (long_text @ js ''&'') = ?f"
      by (simp add: env_escaping_def long_text_def escape_amp_append escape_amp_plain)
         (simp add: js_def)
    have sl: "split_loop env_escaping 1 ?f 0 [(DeleteMessage 1 0, True)] =
            ([(DeleteMessage 1 0, True)] @
             [(Reply (take TELEGRAM_SAFE_LIMIT ?f) True, True),
              (Reply (drop TELEGRAM_SAFE_LIMIT ?f) True, True)], False)"
      by (rule split_loop_two_chunks)
         (simp_all add: TELEGRAM_SAFE_LIMIT_def env_escaping_def env_ok_def long_text_def js_def)
    have ne: "long_text @ js ''&'' \<noteq> []" by (simp add: long_text_def)
    have len: "\<not> length ?f \<le> TELEGRAM_MESSAGE_LIMIT"
      by (simp add: TELEGRAM_MESSAGE_LIMIT_def long_text_def)
    have th: "\<not> throws env_escaping 0" by (simp add: env_escaping_def env_ok_def)
    have tk: "take TELEGRAM_SAFE_LIMIT ?f = replicate 4000 0x61"
      and dr: "drop TELEGRAM_SAFE_LIMIT ?f = replicate 97 0x61 @ js ''&amp;''"
      by (simp_all add: TELEGRAM_SAFE_LIMIT_def long_text_def)
    show ?thesis
      using ne len th m sl [unfolded tk dr]
      by (simp add: statusCallback_def statusCallback_segment_end segment_end_event_def
          on_segment_end_def cv deleteMessage_def Let_def)
  qed
  have four: "statusCallback env_stripping 1
       (segment_end_event 1 (js ''**'' @ replicate 4095 0x61)) [] state_with_message =
     ([(EditMessageText 1 0 (replicate 4095 0x61) True, True)], state_with_message, False)"
  proof -
    have cv: "convertMarkdownToHtml env_stripping (js ''**'' @ replicate 4095 0x61) =
              replicate 4095 0x61"
      by (simp add: env_stripping_def strip_stars_def js_def)
    have ne: "js ''**'' @ replicate 4095 0x61 \<noteq> []" by (simp add: js_def)
    have th: "\<not> throws env_stripping 0" by (simp add: env_stripping_def env_ok_def)
    show ?thesis
      using ne th m
      by (simp add: statusCallback_def statusCallback_segment_end segment_end_event_def
          on_segment_end_def cv editMessageText_def Let_def TELEGRAM_MESSAGE_LIMIT_def
         )
  qed
  have five: "statusCallback env_ok 1 (segment_end_event 1 long_text) [] new_StreamingState =
     ([], new_StreamingState, False)"
    by (simp add: statusCallback_def statusCallback_segment_end segment_end_event_def
        on_segment_end_def new_StreamingState_def)
  have l1: "length (long_text @ js ''&'') = 4098" by (simp add: long_text_def js_def)
  have l2: "length (js ''**'' @ replicate 4095 0x61) = 4097" by (simp add: js_def)
  from one two three four five l1 l2 show ?thesis by (simp only: simp_thms)
qed

subsection \<open>Throttled updates\<close>

lemma statusCallback_text:
  "statusCallback env chat (text_event seg (t, c)) tr st =
     (case on_text env chat t c seg tr st of (tr1, st1, _) \<Rightarrow> (tr1, st1, False))"
  by (simp add: statusCallback_def statusCallback_try_def text_event_def js_def split: prod.splits bool.splits)

lemma on_text_create:
  "textMessages st seg = None \<Longrightarrow>
   \<exists>rest. fst (on_text env chat t c seg tr st) =
     tr @ (Reply (convertMarkdownToHtml env (display c)) True, \<not> throws env (length tr)) # rest"
  by (auto simp: on_text_def reply_def Let_def)

lemma on_text_created:
  "textMessages st seg = None \<Longrightarrow> on_text env chat t c seg tr st = (tr1, st1, b) \<Longrightarrow>
   \<not> (throws env (length tr) \<and> throws env (Suc (length tr))) \<Longrightarrow>
   (\<exists>m. textMessages st1 seg = Some m) \<and> lastEditTimes st1 seg = Some t"
  by (auto simp: on_text_def reply_def Let_def split: if_splits)

lemma on_text_existing:
  "textMessages st seg = Some m \<Longrightarrow>
   (if t - lastEdit st seg > STREAMING_THROTTLE_MS then
      (\<exists>ext. on_text env chat t c seg tr st =
               (tr @ ext, st\<lparr>lastEditTimes := (lastEditTimes st)(seg \<mapsto> t)\<rparr>, False) \<and>
             ext \<noteq> [] \<and> (\<forall>e \<in> set ext. is_edit_of m (convertMarkdownToHtml env (display c)) (fst e)))
    else on_text env chat t c seg tr st = (tr, st, False))"
  by (cases "throws env (length tr)") (auto simp: on_text_def editMessageText_def Let_def is_edit_of_def)

lemma on_text_keeps_message:
  "textMessages st seg = Some m \<Longrightarrow> on_text env chat t c seg tr st = (tr1, st1, b) \<Longrightarrow>
   textMessages st1 seg = Some m"
  by (cases "throws env (length tr)") (auto simp: on_text_def editMessageText_def Let_def split: if_splits)

lemma run_text_events_keep_message:
  "textMessages st seg = Some m \<Longrightarrow>
   run_events env chat (map (text_event seg) xs) tr st = (tr', st') \<Longrightarrow>
   textMessages st' seg = Some m"
proof (induction xs arbitrary: tr st)
  case Nil
  then show ?case by simp
next
  case (Cons x xs)
  obtain t c where x: "x = (t, c)" by (cases x)
  obtain tr1 st1 b where step: "on_text env chat t c seg tr st = (tr1, st1, b)"
    by (cases "on_text env chat t c seg tr st")
  from on_text_keeps_message[OF Cons.prems(1) step] have keep: "textMessages st1 seg = Some m" .
  from Cons.prems(2) have "run_events env chat (map (text_event seg) xs) tr1 st1 = (tr', st')"
    by (simp add: x statusCallback_text step)
  from Cons.IH[OF keep this] show ?case .
qed

text \<open>
  Claim C2.  Take text events that all carry the segment id \<open>seg\<close>, delivered to a fresh
  render state: a first one at time \<open>t0\<close>, any number after it, and then one at time \<open>t\<close>.
  The first event issues the creation of the segment's message, and unless the
  transport rejects both the HTML and the plain send, the segment then has a message,
  recorded as updated at \<open>t0\<close>.  Once the segment has its message \<open>m\<close>, it keeps this
  message, and the event at time \<open>t\<close> edits \<open>m\<close> (recording \<open>t\<close> as the time of the last
  update) if \<open>t\<close> minus the recorded time of the last update is greater than
  \<open>STREAMING_THROTTLE_MS\<close>; otherwise it issues no call and changes nothing.
\<close>

theorem text_updates_throttled:
  assumes first:
      "statusCallback env chat (text_event seg (t0, c0)) tr0 new_StreamingState = (tr1, st1, b1)"
    and later: "run_events env chat (map (text_event seg) mid) tr1 st1 = (tr, st)"
  shows "(\<exists>rest. tr1 = tr0 @ (Reply (convertMarkdownToHtml env (display c0)) True,
                              \<not> throws env (length tr0)) # rest) \<and>
         (\<not> (throws env (length tr0) \<and> throws env (Suc (length tr0))) \<longrightarrow>
            (\<exists>m. textMessages st1 seg = Some m) \<and> lastEditTimes st1 seg = Some t0) \<and>
         (\<forall>m. textMessages st1 seg = Some m \<longrightarrow>
            textMessages st seg = Some m \<and>
            (if t - lastEdit st seg > STREAMING_THROTTLE_MS then
               (\<exists>ext. statusCallback env chat (text_event seg (t, c)) tr st =
                        (tr @ ext, st\<lparr>lastEditTimes := (lastEditTimes st)(seg \<mapsto> t)\<rparr>, False) \<and>
                      ext \<noteq> [] \<and>
                      (\<forall>e \<in> set ext.
                         is_edit_of m (convertMarkdownToHtml env (display c)) (fst e)))
             else statusCallback env chat (text_event seg (t, c)) tr st = (tr, st, False)))"
proof (intro conjI allI impI)
  have none: "textMessages new_StreamingState seg = None"
    by (simp add: new_StreamingState_def)
  from on_text_create [OF none, of env chat t0 c0 tr0] first
  show "\<exists>rest. tr1 = tr0 @ (Reply (convertMarkdownToHtml env (display c0)) True,
                           \<not> throws env (length tr0)) # rest"
    by (auto simp: statusCallback_text split: prod.splits)
  assume ok: "\<not> (throws env (length tr0) \<and> throws env (Suc (length tr0)))"
  obtain b where step: "on_text env chat t0 c0 seg tr0 new_StreamingState = (tr1, st1, b)"
    using first by (auto simp: statusCallback_text split: prod.splits)
  from on_text_created [OF none step ok]
  show "\<exists>m. textMessages st1 seg = Some m" and "lastEditTimes st1 seg = Some t0"
    by blast+
next
  fix m
  assume m1: "textMessages st1 seg = Some m"
  from run_text_events_keep_message [OF m1 later] show m: "textMessages st seg = Some m" .
  from on_text_existing [OF m, of t env chat c tr]
  show "if t - lastEdit st seg > STREAMING_THROTTLE_MS then
          (\<exists>ext. statusCallback env chat (text_event seg (t, c)) tr st =
                   (tr @ ext, st\<lparr>lastEditTimes := (lastEditTimes st)(seg \<mapsto> t)\<rparr>, False) \<and>
                 ext \<noteq> [] \<and>
                 (\<forall>e \<in> set ext. is_edit_of m (convertMarkdownToHtml env (display c)) (fst e)))
        else statusCallback env chat (text_event seg (t, c)) tr st = (tr, st, False)"
    by (auto simp: statusCallback_text split: if_splits)
qed

theorem text_updates_throttled_witness:
  "statusCallback env_ok 1 (text_event 1 (1000, js ''a'')) [] new_StreamingState =
     ([(Reply (js ''a'') True, True)], state_with_message, False) \<and>
   run_events env_ok 1 (map (text_event 1) [(1100, js ''ab'')]) [(Reply (js ''a'') True, True)]
     state_with_message = ([(Reply (js ''a'') True, True)], state_with_message) \<and>
   textMessages state_with_message 1 = Some \<lparr>chat_id = 1, message_id = 0\<rparr> \<and>
   statusCallback env_ok 1 (text_event 1 (1500, js ''abc'')) [(Reply (js ''a'') True, True)]
     state_with_message = ([(Reply (js ''a'') True, True)], state_with_message, False) \<and>
   statusCallback env_ok 1 (text_event 1 (1501, js ''abc'')) [(Reply (js ''a'') True, True)]
     state_with_message =
       ([(Reply (js ''a'') True, True), (EditMessageText 1 0 (js ''abc'') True, True)],
        state_with_message\<lparr>lastEditTimes := [1 \<mapsto> 1501]\<rparr>, False)"
proof -
  have first: "statusCallback env_ok 1 (text_event 1 (1000, js ''a'')) [] new_StreamingState =
     ([(Reply (js ''a'') True, True)], state_with_message, False)"
    by (simp add: statusCallback_text on_text_def reply_def env_ok_def new_StreamingState_def
        state_with_message_def display_def TELEGRAM_SAFE_LIMIT_def js_def)
  have later: "run_events env_ok 1 (map (text_event 1) [(1100, js ''ab'')])
     [(Reply (js ''a'') True, True)] state_with_message =
       ([(Reply (js ''a'') True, True)], state_with_message)"
    by (simp add: statusCallback_text on_text_def state_with_message_def new_StreamingState_def
        lastEdit_def STREAMING_THROTTLE_MS_def)
  have m: "textMessages state_with_message 1 = Some \<lparr>chat_id = 1, message_id = 0\<rparr>"
    by (simp add: state_with_message_def new_StreamingState_def)
  have le: "lastEdit state_with_message 1 = 1000"
    by (simp add: lastEdit_def state_with_message_def new_StreamingState_def)
  from text_updates_throttled [OF first later, of 1500 "js ''abc''"] m le
  have dropped: "statusCallback env_ok 1 (text_event 1 (1500, js ''abc''))
     [(Reply (js ''a'') True, True)] state_with_message =
       ([(Reply (js ''a'') True, True)], state_with_message, False)"
    by (simp add: STREAMING_THROTTLE_MS_def)
  from text_updates_throttled [OF first later, of 1501 "js ''abc''"] m le
  have edited: "statusCallback env_ok 1 (text_event 1 (1501, js ''abc''))
     [(Reply (js ''a'') True, True)] state_with_message =
       ([(Reply (js ''a'') True, True), (EditMessageText 1 0 (js ''abc'') True, True)],
        state_with_message\<lparr>lastEditTimes := [1 \<mapsto> 1501]\<rparr>, False)"
    by (simp add: statusCallback_text on_text_def editMessageText_def env_ok_def
        new_StreamingState_def state_with_message_def display_def TELEGRAM_SAFE_LIMIT_def js_def
        lastEdit_def STREAMING_THROTTLE_MS_def)
  from first later m dropped edited show ?thesis by simp
qed

subsection \<open>The callback only calls the transport\<close>

lemma is_reply_render: "is_reply c \<Longrightarrow> is_render c"
  by (cases c) (simp_all add: is_reply_def is_render_def)

lemma on_thinking_render:
  "\<exists>ext. fst (on_thinking env chat c tr st) = tr @ ext \<and> (\<forall>e \<in> set ext. is_render (fst e))"
  by (simp add: on_thinking_def reply_def Let_def is_render_def)

lemma on_tool_render:
  "\<exists>ext. fst (on_tool env chat c tr st) = tr @ ext \<and> (\<forall>e \<in> set ext. is_render (fst e))"
  by (simp add: on_tool_def reply_def Let_def is_render_def)

lemma on_text_render:
  "\<exists>ext. fst (on_text env chat t c seg tr st) = tr @ ext \<and> (\<forall>e \<in> set ext. is_render (fst e))"
proof (cases "textMessages st seg")
  case None
  then show ?thesis
    by (cases "throws env (length tr)"; cases "throws env (Suc (length tr))")
       (simp_all add: on_text_def reply_def Let_def is_render_def)
next
  case (Some m)
  then show ?thesis
    by (cases "throws env (length tr)")
       (simp_all add: on_text_def editMessageText_def Let_def is_render_def)
qed

lemma on_segment_end_render:
  "\<exists>ext. fst (on_segment_end env chat c seg tr st) = tr @ ext \<and> (\<forall>e \<in> set ext. is_render (fst e))"
proof (cases "textMessages st seg")
  case None
  then show ?thesis by (simp add: on_segment_end_def)
next
  case (Some m)
  let ?f = "convertMarkdownToHtml env c"
  let ?tr1 = "tr @ [(DeleteMessage (chat_id m) (message_id m), \<not> throws env (length tr))]"
  from split_loop_replies[of env chat ?f 0 ?tr1] obtain ext where
    ext: "fst (split_loop env chat ?f 0 ?tr1) = ?tr1 @ ext" "\<forall>e \<in> set ext. is_reply (fst e)" by blast
  show ?thesis
  proof (cases "c = [] \<or> length ?f \<le> TELEGRAM_MESSAGE_LIMIT")
    case True
    with Some show ?thesis
      by (auto simp: on_segment_end_def editMessageText_def Let_def is_render_def)
  next
    case False
    have del: "is_render (DeleteMessage (chat_id m) (message_id m))"
      by (simp add: is_render_def)
    from ext(2) have "\<forall>e \<in> set ext. is_render (fst e)"
      using is_reply_render by blast
    with False Some ext(1) del show ?thesis
      by (intro exI[of _ "(DeleteMessage (chat_id m) (message_id m), \<not> throws env (length tr)) # ext"])
         (auto simp: on_segment_end_def deleteMessage_def Let_def split: prod.splits)
  qed
qed

lemma on_done_render:
  "\<exists>ext. fst (on_done env chat tr st) = tr @ ext \<and> (\<forall>e \<in> set ext. is_render (fst e))"
proof -
  from delete_each_calls[of "throws env" "toolMessages st" tr] obtain ext where
    ext: "delete_each (throws env) (toolMessages st) tr = tr @ ext"
    "map fst ext = map (\<lambda>m. DeleteMessage (chat_id m) (message_id m)) (toolMessages st)" by blast
  have "\<forall>e \<in> set ext. is_render (fst e)"
  proof
    fix e assume "e \<in> set ext"
    then have "fst e \<in> set (map fst ext)" by simp
    with ext(2) show "is_render (fst e)" by (auto simp: is_render_def)
  qed
  with ext(1) show ?thesis by (auto simp: on_done_def)
qed

lemma statusCallback_render:
  "\<exists>ext. fst (statusCallback env chat ev tr st) = tr @ ext \<and> (\<forall>e \<in> set ext. is_render (fst e))"
proof -
  have "fst (statusCallback env chat ev tr st) = fst (statusCallback_try env chat ev tr st)"
    by (simp add: statusCallback_def split: prod.splits bool.splits)
  moreover have "\<exists>ext. fst (statusCallback_try env chat ev tr st) = tr @ ext \<and>
                       (\<forall>e \<in> set ext. is_render (fst e))"
    unfolding statusCallback_try_def
    using on_thinking_render on_tool_render on_text_render on_segment_end_render on_done_render
    by simp
  ultimately show ?thesis by simp
qed

lemma run_events_render:
  "\<exists>ext. fst (run_events env chat evs tr st) = tr @ ext \<and> (\<forall>e \<in> set ext. is_render (fst e))"
proof (induction evs arbitrary: tr st)
  case Nil
  then show ?case by simp
next
  case (Cons ev evs)
  obtain tr1 st1 b where step: "statusCallback env chat ev tr st = (tr1, st1, b)"
    by (cases "statusCallback env chat ev tr st")
  from statusCallback_render[of env chat ev tr st] step obtain ext1 where
    e1: "tr1 = tr @ ext1" "\<forall>e \<in> set ext1. is_render (fst e)" by auto
  from Cons.IH[of tr1 st1] obtain ext2 where
    e2: "fst (run_events env chat evs tr1 st1) = tr1 @ ext2" "\<forall>e \<in> set ext2. is_render (fst e)" by blast
  show ?case
    using step e1 e2 by (intro exI[of _ "ext1 @ ext2"]) auto
qed

section \<open>The text handler\<close>

subsection \<open>One attempt\<close>

lemma statusCallback_context_warning:
  "e_statusType ev = js ''context_warning'' \<Longrightarrow> statusCallback env chat ev tr st = (tr, st, False)"
  by (simp add: statusCallback_def statusCallback_try_def js_def)

lemma on_response_eq:
  "on_response env chatId userId username message response state s tr =
     (s\<lparr>contextWarning := None\<rparr>,
      tr @ [(AuditLog userId username (js ''TEXT'') message response, True)])"
  by (simp add: on_response_def consumeContextWarning_def statusCallback_context_warning
      split: option.splits)

lemma on_error_final:
  assumes "\<not> (includes_str e (js ''exited with code'') \<and> attempt < MAX_RETRIES)"
  shows "on_error env chatId attempt e state s tr =
     (let tr1 = delete_each (throws env) (toolMessages state) tr
      in if includes_str e (js ''abort'') \<or> includes_str e (js ''cancel'') then
           (if interruptRequested s then Exit (s\<lparr>interruptRequested := False\<rparr>) tr1 False
            else Exit (s\<lparr>interruptRequested := False\<rparr>)
                   (tr1 @ [(Reply stopped_notice False, \<not> throws env (length tr1))])
                   (throws env (length tr1)))
         else Exit s (tr1 @ [(Reply (error_notice e) False, \<not> throws env (length tr1))])
                (throws env (length tr1)))"
  using assms by (auto simp: on_error_def Let_def consumeInterruptFlag_def reply_def)

lemma on_error_retry:
  assumes "includes_str e (js ''exited with code'')" "attempt < MAX_RETRIES"
  shows "on_error env chatId attempt e state s tr =
     (let tr1 = delete_each (throws env) (toolMessages state) tr
      in if throws env (Suc (length tr1))
         then Exit (kill s) (tr1 @ [(Kill, True), (Reply retry_notice False, False)]) True
         else Retry (kill s) (tr1 @ [(Kill, True), (Reply retry_notice False, True)]))"
  using assms by (auto simp: on_error_def Let_def reply_def)

lemma attempt_loop_resolved:
  assumes "attempt \<le> MAX_RETRIES" "result (adapter env attempt) = Inr response"
    and "run_events env chatId (events (adapter env attempt))
           (tr @ [(SendMessageStreaming message, True)]) state = (tr1, state1)"
  shows "attempt_loop env chatId userId username message attempt state s tr =
           ((effect (adapter env attempt) s)\<lparr>contextWarning := None\<rparr>,
            tr1 @ [(AuditLog userId username (js ''TEXT'') message response, True)], False)"
  using assms
  by (simp add: attempt_loop.simps[of env chatId userId username message attempt state s tr]
      on_response_eq Let_def)

lemma attempt_loop_rejected_final:
  assumes "attempt \<le> MAX_RETRIES" "result (adapter env attempt) = Inl e"
    and "\<not> (includes_str e (js ''exited with code'') \<and> attempt < MAX_RETRIES)"
    and "run_events env chatId (events (adapter env attempt))
           (tr @ [(SendMessageStreaming message, False)]) state = (tr1, state1)"
  shows "attempt_loop env chatId userId username message attempt state s tr =
           (case on_error env chatId attempt e state1 (effect (adapter env attempt) s) tr1 of
              Exit s' tr' threw \<Rightarrow> (s', tr', threw)
            | Retry s' tr' \<Rightarrow> (s', tr', False))"
  using assms
  by (simp add: attempt_loop.simps[of env chatId userId username message attempt state s tr]
      on_error_final Let_def)

lemma attempt_loop_crash_retry:
  assumes "result (adapter env 0) = Inl e" "includes_str e (js ''exited with code'')"
    and "run_events env chatId (events (adapter env 0))
           (tr @ [(SendMessageStreaming message, False)]) state = (tr1, state1)"
    and "delete_each (throws env) (toolMessages state1) tr1 = tr2"
    and "\<not> throws env (Suc (length tr2))"
  shows "attempt_loop env chatId userId username message 0 state s tr =
           attempt_loop env chatId userId username message 1 new_StreamingState
             (kill (effect (adapter env 0) s))
             (tr2 @ [(Kill, True), (Reply retry_notice False, True)])"
  using assms
  by (simp add: attempt_loop.simps[of env chatId userId username message 0 state s tr]
      on_error_retry MAX_RETRIES_def Let_def)

lemma count_calls_append: "count_calls P (a @ b) = count_calls P a + count_calls P b"
  by (simp add: count_calls_def)

lemma count_calls_render:
  "\<forall>e \<in> set ext. is_render (fst e) \<Longrightarrow> (\<And>c. is_render c \<Longrightarrow> \<not> P c) \<Longrightarrow> count_calls P ext = 0"
  by (auto simp: count_calls_def filter_empty_conv)

lemma render_not_send: "is_render c \<Longrightarrow> \<not> is_send c"
  by (cases c) (simp_all add: is_render_def is_send_def)

lemma render_not_kill: "is_render c \<Longrightarrow> c \<noteq> Kill"
  by (cases c) (simp_all add: is_render_def)

subsection \<open>Retry after a crash\<close>

text \<open>
  Claim C6, as the code has it.  The retry loop is entered at attempt 0 with the render
  state \<open>state\<close>; the first \<open>sendMessageStreaming\<close> rejects with an error whose text
  contains \<open>exited with code\<close>.  The hypotheses name what the run then does: \<open>tr1\<close>,
  \<open>state1\<close> are the trace and render state after the events of the first attempt,
  \<open>tr2\<close> the trace after the ephemeral messages of \<open>state1\<close> have been deleted, and
  the retry notice (sent after \<open>kill\<close>, at trace position \<open>Suc (length tr2)\<close>) is not
  rejected by the transport; \<open>tr3\<close>, \<open>state2\<close> are the trace and state after the events
  of the second attempt, which starts from a fresh render state.  Then, from the start of
  the loop to the end of the second attempt, the handler's own calls are:
  \<open>sendMessageStreaming\<close> with the prompt, \<open>kill\<close>, the retry notice, and
  \<open>sendMessageStreaming\<close> with the same prompt, the rest being calls of the status
  callback and the deletions; there are two invocations and one \<open>kill\<close>.  If the second
  invocation resolves, the loop ends with the audit log entry and no further notice.  If
  it rejects, there is no third invocation: the ephemeral messages of \<open>state2\<close> are
  deleted, and then the loop ends with the error notice carrying the error text; except
  that for an error text that contains \<open>abort\<close> or \<open>cancel\<close> it ends with the stopped
  notice when the interrupt flag of the session is not set, and with no notice at all
  when it is set.
\<close>

theorem crash_retried_once:
  assumes crash: "result (adapter env 0) = Inl e0" "includes_str e0 (js ''exited with code'')"
    and first: "run_events env chatId (events (adapter env 0))
                  (tr @ [(SendMessageStreaming message, False)]) state = (tr1, state1)"
    and cleaned: "delete_each (throws env) (toolMessages state1) tr1 = tr2"
    and notified: "\<not> throws env (Suc (length tr2))"
    and second: "run_events env chatId (events (adapter env 1))
                   (tr2 @ [(Kill, True), (Reply retry_notice False, True),
                           (SendMessageStreaming message, \<not> isl (result (adapter env 1)))])
                   new_StreamingState = (tr3, state2)"
  shows "(\<exists>cb0 dels cb1.
            tr3 = tr @ [(SendMessageStreaming message, False)] @ cb0 @ dels @
                    [(Kill, True), (Reply retry_notice False, True),
                     (SendMessageStreaming message, \<not> isl (result (adapter env 1)))] @ cb1 \<and>
            (\<forall>e \<in> set (cb0 @ cb1). is_render (fst e)) \<and>
            map fst dels = map (\<lambda>m. DeleteMessage (chat_id m) (message_id m)) (toolMessages state1)) \<and>
         count_calls is_send (drop (length tr) tr3) = 2 \<and>
         count_calls (\<lambda>c. c = Kill) (drop (length tr) tr3) = 1 \<and>
         (\<forall>response. result (adapter env 1) = Inr response \<longrightarrow>
            attempt_loop env chatId userId username message 0 state s tr =
              ((effect (adapter env 1) (kill (effect (adapter env 0) s)))\<lparr>contextWarning := None\<rparr>,
               tr3 @ [(AuditLog userId username (js ''TEXT'') message response, True)], False)) \<and>
         (\<forall>e1. result (adapter env 1) = Inl e1 \<longrightarrow>
            (\<exists>dels.
               map fst dels =
                 map (\<lambda>m. DeleteMessage (chat_id m) (message_id m)) (toolMessages state2) \<and>
               attempt_loop env chatId userId username message 0 state s tr =
                 (let s2 = effect (adapter env 1) (kill (effect (adapter env 0) s));
                      rejected = throws env (length (tr3 @ dels))
                  in if includes_str e1 (js ''abort'') \<or> includes_str e1 (js ''cancel'') then
                       if interruptRequested s2
                       then (s2\<lparr>interruptRequested := False\<rparr>, tr3 @ dels, False)
                       else (s2\<lparr>interruptRequested := False\<rparr>,
                             tr3 @ dels @ [(Reply stopped_notice False, \<not> rejected)], rejected)
                     else (s2, tr3 @ dels @ [(Reply (error_notice e1) False, \<not> rejected)],
                           rejected))))"
proof -
  let ?s1 = "kill (effect (adapter env 0) s)"
  let ?mid = "[(Kill, True), (Reply retry_notice False, True),
               (SendMessageStreaming message, \<not> isl (result (adapter env 1)))]"
  from run_events_render[of env chatId "events (adapter env 0)"
        "tr @ [(SendMessageStreaming message, False)]" state] first
  obtain cb0 where cb0: "tr1 = (tr @ [(SendMessageStreaming message, False)]) @ cb0"
    "\<forall>e \<in> set cb0. is_render (fst e)" by auto
  from delete_each_calls[of "throws env" "toolMessages state1" tr1] cleaned
  obtain dels where dels: "tr2 = tr1 @ dels"
    "map fst dels = map (\<lambda>m. DeleteMessage (chat_id m) (message_id m)) (toolMessages state1)" by auto
  from run_events_render[of env chatId "events (adapter env 1)" "tr2 @ ?mid" new_StreamingState] second
  obtain cb1 where cb1: "tr3 = (tr2 @ ?mid) @ cb1" "\<forall>e \<in> set cb1. is_render (fst e)" by auto
  have dels_render: "\<forall>e \<in> set dels. is_render (fst e)"
  proof
    fix e assume "e \<in> set dels"
    then have "fst e \<in> set (map fst dels)" by simp
    with dels(2) show "is_render (fst e)" by (auto simp: is_render_def)
  qed
  have shape: "tr3 = tr @ [(SendMessageStreaming message, False)] @ cb0 @ dels @ ?mid @ cb1"
    using cb0(1) dels(1) cb1(1) by simp
  have part1: "\<exists>cb0 dels cb1.
            tr3 = tr @ [(SendMessageStreaming message, False)] @ cb0 @ dels @ ?mid @ cb1 \<and>
            (\<forall>e \<in> set (cb0 @ cb1). is_render (fst e)) \<and>
            map fst dels = map (\<lambda>m. DeleteMessage (chat_id m) (message_id m)) (toolMessages state1)"
    using shape cb0(2) cb1(2) dels(2) by (intro exI[of _ cb0] exI[of _ dels] exI[of _ cb1]) auto
  have new: "drop (length tr) tr3 = [(SendMessageStreaming message, False)] @ cb0 @ dels @ ?mid @ cb1"
    using shape by simp
  have sends: "count_calls is_send (drop (length tr) tr3) = 2"
    unfolding new count_calls_append
    using count_calls_render[OF cb0(2), of is_send] count_calls_render[OF cb1(2), of is_send]
      count_calls_render[OF dels_render, of is_send] render_not_send
    by (simp add: count_calls_def is_send_def)
  have kills: "count_calls (\<lambda>c. c = Kill) (drop (length tr) tr3) = 1"
    unfolding new count_calls_append
    using count_calls_render[OF cb0(2), of "\<lambda>c. c = Kill"] count_calls_render[OF cb1(2), of "\<lambda>c. c = Kill"]
      count_calls_render[OF dels_render, of "\<lambda>c. c = Kill"] render_not_kill
    by (simp add: count_calls_def)
  have retry: "attempt_loop env chatId userId username message 0 state s tr =
               attempt_loop env chatId userId username message 1 new_StreamingState ?s1
                 (tr2 @ [(Kill, True), (Reply retry_notice False, True)])"
    by (rule attempt_loop_crash_retry[OF crash first cleaned notified])
  have ok: "\<forall>response. result (adapter env 1) = Inr response \<longrightarrow>
            attempt_loop env chatId userId username message 0 state s tr =
              ((effect (adapter env 1) ?s1)\<lparr>contextWarning := None\<rparr>,
               tr3 @ [(AuditLog userId username (js ''TEXT'') message response, True)], False)"
  proof (intro allI impI)
    fix response assume r: "result (adapter env 1) = Inr response"
    from second r have second': "run_events env chatId (events (adapter env 1))
         ((tr2 @ [(Kill, True), (Reply retry_notice False, True)]) @ [(SendMessageStreaming message, True)])
         new_StreamingState = (tr3, state2)" by simp
    show "attempt_loop env chatId userId username message 0 state s tr =
              ((effect (adapter env 1) ?s1)\<lparr>contextWarning := None\<rparr>,
               tr3 @ [(AuditLog userId username (js ''TEXT'') message response, True)], False)"
      unfolding retry
      by (rule attempt_loop_resolved[OF _ r second']) (simp add: MAX_RETRIES_def)
  qed
  have bad: "\<forall>e1. result (adapter env 1) = Inl e1 \<longrightarrow>
            (\<exists>dels.
               map fst dels =
                 map (\<lambda>m. DeleteMessage (chat_id m) (message_id m)) (toolMessages state2) \<and>
               attempt_loop env chatId userId username message 0 state s tr =
                 (let s2 = effect (adapter env 1) ?s1;
                      rejected = throws env (length (tr3 @ dels))
                  in if includes_str e1 (js ''abort'') \<or> includes_str e1 (js ''cancel'') then
                       if interruptRequested s2
                       then (s2\<lparr>interruptRequested := False\<rparr>, tr3 @ dels, False)
                       else (s2\<lparr>interruptRequested := False\<rparr>,
                             tr3 @ dels @ [(Reply stopped_notice False, \<not> rejected)], rejected)
                     else (s2, tr3 @ dels @ [(Reply (error_notice e1) False, \<not> rejected)],
                           rejected)))"
  proof (intro allI impI)
    fix e1 assume r: "result (adapter env 1) = Inl e1"
    let ?s2 = "effect (adapter env 1) ?s1"
    from second r have second': "run_events env chatId (events (adapter env 1))
         ((tr2 @ [(Kill, True), (Reply retry_notice False, True)]) @ [(SendMessageStreaming message, False)])
         new_StreamingState = (tr3, state2)" by simp
    have fin: "\<not> (includes_str e1 (js ''exited with code'') \<and> 1 < MAX_RETRIES)"
      by (simp add: MAX_RETRIES_def)
    have loop: "attempt_loop env chatId userId username message 0 state s tr =
           (case on_error env chatId 1 e1 state2 ?s2 tr3 of
              Exit s' tr' threw \<Rightarrow> (s', tr', threw)
            | Retry s' tr' \<Rightarrow> (s', tr', False))"
      unfolding retry
      by (rule attempt_loop_rejected_final[OF _ r fin second']) (simp add: MAX_RETRIES_def)
    from delete_each_calls[of "throws env" "toolMessages state2" tr3]
    obtain dels2 where d2: "delete_each (throws env) (toolMessages state2) tr3 = tr3 @ dels2"
      "map fst dels2 = map (\<lambda>m. DeleteMessage (chat_id m) (message_id m)) (toolMessages state2)"
      by blast
    have "attempt_loop env chatId userId username message 0 state s tr =
                 (let s2 = ?s2;
                      rejected = throws env (length (tr3 @ dels2))
                  in if includes_str e1 (js ''abort'') \<or> includes_str e1 (js ''cancel'') then
                       if interruptRequested s2
                       then (s2\<lparr>interruptRequested := False\<rparr>, tr3 @ dels2, False)
                       else (s2\<lparr>interruptRequested := False\<rparr>,
                             tr3 @ dels2 @ [(Reply stopped_notice False, \<not> rejected)], rejected)
                     else (s2, tr3 @ dels2 @ [(Reply (error_notice e1) False, \<not> rejected)],
                           rejected))"
      unfolding loop on_error_final[OF fin] using d2(1) by (simp add: Let_def)
    with d2(2) show "\<exists>dels.
               map fst dels =
                 map (\<lambda>m. DeleteMessage (chat_id m) (message_id m)) (toolMessages state2) \<and>
               attempt_loop env chatId userId username message 0 state s tr =
                 (let s2 = ?s2;
                      rejected = throws env (length (tr3 @ dels))
                  in if includes_str e1 (js ''abort'') \<or> includes_str e1 (js ''cancel'') then
                       if interruptRequested s2
                       then (s2\<lparr>interruptRequested := False\<rparr>, tr3 @ dels, False)
                       else (s2\<lparr>interruptRequested := False\<rparr>,
                             tr3 @ dels @ [(Reply stopped_notice False, \<not> rejected)], rejected)
                     else (s2, tr3 @ dels @ [(Reply (error_notice e1) False, \<not> rejected)],
                           rejected))"
      by blast
  qed
  from part1 sends kills ok bad show ?thesis by (simp only: append_assoc)
qed

theorem crash_retried_once_witness:
  "result (adapter env_crash_once 0) = Inl (js ''Error: process exited with code 1'') \<and>
   includes_str (js ''Error: process exited with code 1'') (js ''exited with code'') \<and>
   result (adapter env_crash_once 1) = Inr (js ''ok'') \<and>
   \<not> throws env_crash_once 4 \<and>
   attempt_loop env_crash_once 1 1 (js ''u'') (js ''hi'') 0 new_StreamingState running_session [] =
     (running_session\<lparr>sessionId := None\<rparr>,
      [(SendMessageStreaming (js ''hi''), False), (Reply (js ''ls'') True, True),
       (DeleteMessage 1 1, True), (Kill, True), (Reply retry_notice False, True),
       (SendMessageStreaming (js ''hi''), True),
       (AuditLog 1 (js ''u'') (js ''TEXT'') (js ''hi'') (js ''ok''), True)],
      False) \<and>
   result (adapter env_crash_then_timeout 0) = Inl (js ''Error: process exited with code 1'') \<and>
   result (adapter env_crash_then_timeout 1) = Inl (js ''Error: timeout'') \<and>
   \<not> throws env_crash_then_timeout 4 \<and>
   attempt_loop env_crash_then_timeout 1 1 (js ''u'') (js ''hi'') 0 new_StreamingState
       running_session [] =
     (running_session\<lparr>sessionId := None\<rparr>,
      [(SendMessageStreaming (js ''hi''), False), (Reply (js ''ls'') True, True),
       (DeleteMessage 1 1, True), (Kill, True), (Reply retry_notice False, True),
       (SendMessageStreaming (js ''hi''), False),
       (Reply (error_notice (js ''Error: timeout'')) False, True)],
      False)"
proof -
  let ?tr1 = "[(SendMessageStreaming (js ''hi''), False), (Reply (js ''ls'') True, True)]"
  let ?tr2 = "?tr1 @ [(DeleteMessage 1 1, True)]"
  let ?tr3 = "?tr2 @ [(Kill, True), (Reply retry_notice False, True),
                      (SendMessageStreaming (js ''hi''), True)]"
  let ?tr3' = "?tr2 @ [(Kill, True), (Reply retry_notice False, True),
                      (SendMessageStreaming (js ''hi''), False)]"
  have crash: "includes_str (js ''Error: process exited with code 1'') (js ''exited with code'')"
    by (simp add: js_def)
  have r0: "result (adapter env_crash_once 0) = Inl (js ''Error: process exited with code 1'')"
    by (simp add: env_crash_once_def env_ok_def)
  have r1: "result (adapter env_crash_once 1) = Inr (js ''ok'')"
    by (simp add: env_crash_once_def env_ok_def)
  have first: "run_events env_crash_once 1 (events (adapter env_crash_once 0))
                 ([] @ [(SendMessageStreaming (js ''hi''), False)]) new_StreamingState =
               (?tr1, state_one_tool)"
    by (simp add: env_crash_once_def env_ok_def statusCallback_def statusCallback_try_def
        tool_event_def on_tool_def reply_def new_StreamingState_def state_one_tool_def js_def)
  have cleaned: "delete_each (throws env_crash_once) (toolMessages state_one_tool) ?tr1 = ?tr2"
    by (simp add: env_crash_once_def env_ok_def state_one_tool_def new_StreamingState_def
        deleteMessage_def)
  have notified: "\<not> throws env_crash_once (Suc (length ?tr2))"
    by (simp add: env_crash_once_def env_ok_def)
  have second: "run_events env_crash_once 1 (events (adapter env_crash_once 1))
                  (?tr2 @ [(Kill, True), (Reply retry_notice False, True),
                           (SendMessageStreaming (js ''hi''),
                            \<not> isl (result (adapter env_crash_once 1)))])
                  new_StreamingState = (?tr3, new_StreamingState)"
    by (simp add: env_crash_once_def env_ok_def)
  have eff: "effect (adapter env_crash_once 1) (kill (effect (adapter env_crash_once 0) running_session))
             = running_session\<lparr>sessionId := None\<rparr>"
    by (simp add: env_crash_once_def env_ok_def kill_def)
  have cw: "(running_session\<lparr>sessionId := None\<rparr>)\<lparr>contextWarning := None\<rparr> =
            running_session\<lparr>sessionId := None\<rparr>"
    by (simp add: running_session_def idle_session_def)
  from crash_retried_once [OF r0 crash first cleaned notified second, of 1 "js ''u''" running_session]
    r1 eff cw
  have a: "attempt_loop env_crash_once 1 1 (js ''u'') (js ''hi'') 0 new_StreamingState running_session [] =
     (running_session\<lparr>sessionId := None\<rparr>,
      ?tr3 @ [(AuditLog 1 (js ''u'') (js ''TEXT'') (js ''hi'') (js ''ok''), True)], False)"
    by simp
  have n4: "\<not> throws env_crash_once 4"
    by (simp add: env_crash_once_def env_ok_def)
  have r0': "result (adapter env_crash_then_timeout 0) = Inl (js ''Error: process exited with code 1'')"
    by (simp add: env_crash_then_timeout_def env_crash_once_def env_ok_def)
  have r1': "result (adapter env_crash_then_timeout 1) = Inl (js ''Error: timeout'')"
    by (simp add: env_crash_then_timeout_def env_crash_once_def env_ok_def)
  have first': "run_events env_crash_then_timeout 1 (events (adapter env_crash_then_timeout 0))
                 ([] @ [(SendMessageStreaming (js ''hi''), False)]) new_StreamingState =
               (?tr1, state_one_tool)"
    by (simp add: env_crash_then_timeout_def env_crash_once_def env_ok_def statusCallback_def
        statusCallback_try_def tool_event_def on_tool_def reply_def new_StreamingState_def
        state_one_tool_def js_def)
  have cleaned': "delete_each (throws env_crash_then_timeout) (toolMessages state_one_tool) ?tr1
                  = ?tr2"
    by (simp add: env_crash_then_timeout_def env_crash_once_def env_ok_def state_one_tool_def
        new_StreamingState_def deleteMessage_def)
  have notified': "\<not> throws env_crash_then_timeout (Suc (length ?tr2))"
    by (simp add: env_crash_then_timeout_def env_crash_once_def env_ok_def)
  have second': "run_events env_crash_then_timeout 1 (events (adapter env_crash_then_timeout 1))
                  (?tr2 @ [(Kill, True), (Reply retry_notice False, True),
                           (SendMessageStreaming (js ''hi''),
                            \<not> isl (result (adapter env_crash_then_timeout 1)))])
                  new_StreamingState = (?tr3', new_StreamingState)"
    by (simp add: env_crash_then_timeout_def env_crash_once_def env_ok_def)
  have eff': "effect (adapter env_crash_then_timeout 1)
                (kill (effect (adapter env_crash_then_timeout 0) running_session))
             = running_session\<lparr>sessionId := None\<rparr>"
    by (simp add: env_crash_then_timeout_def env_crash_once_def env_ok_def kill_def)
  have nc: "\<not> (includes_str (js ''Error: timeout'') (js ''abort'') \<or>
                includes_str (js ''Error: timeout'') (js ''cancel''))"
    by (simp add: js_def)
  have t6: "\<not> throws env_crash_then_timeout n" for n
    by (simp add: env_crash_then_timeout_def env_crash_once_def env_ok_def)
  have none: "toolMessages new_StreamingState = []"
    by (simp add: new_StreamingState_def)
  from crash_retried_once [OF r0' crash first' cleaned' notified' second',
      of 1 "js ''u''" running_session] r1' nc none eff' t6
  have b: "attempt_loop env_crash_then_timeout 1 1 (js ''u'') (js ''hi'') 0 new_StreamingState
       running_session [] =
     (running_session\<lparr>sessionId := None\<rparr>,
      ?tr3' @ [(Reply (error_notice (js ''Error: timeout'')) False, True)], False)"
    by (simp add: Let_def)
  have n4': "\<not> throws env_crash_then_timeout 4"
    by (simp add: env_crash_then_timeout_def env_crash_once_def env_ok_def)
  from a n4 r0 crash r1 r0' r1' n4' b show ?thesis by simp
qed

text \<open>
  Claim C6 as stated fails in two ways.  When the second invocation is cancelled by an
  incoming \<open>!\<close> message, which sets the interrupt flag, no error is surfaced: the trace
  ends with the second invocation.  And when the transport rejects the retry notice, the
  exception of that \<open>ctx.reply\<close>, which nothing catches, leaves the loop after one
  invocation: the prompt is not reissued.
\<close>

theorem crash_retry_counterexample:
  "result (adapter env_crash_then_interrupted 0) = Inl (js ''Error: process exited with code 1'') \<and>
   result (adapter env_crash_then_interrupted 1) = Inl (js ''Error: query cancelled'') \<and>
   snd (attempt_loop env_crash_then_interrupted 1 1 (js ''u'') (js ''hi'') 0 new_StreamingState
          running_session []) =
     ([(SendMessageStreaming (js ''hi''), False), (Reply (js ''ls'') True, True),
       (DeleteMessage 1 1, True), (Kill, True), (Reply retry_notice False, True),
       (SendMessageStreaming (js ''hi''), False)], False) \<and>
   result (adapter env_crash_notice_rejected 0) = Inl (js ''Error: process exited with code 1'') \<and>
   result (adapter env_crash_notice_rejected 1) = Inr (js ''ok'') \<and>
   attempt_loop env_crash_notice_rejected 1 1 (js ''u'') (js ''hi'') 0 new_StreamingState
       running_session [] =
     (running_session\<lparr>sessionId := None\<rparr>,
      [(SendMessageStreaming (js ''hi''), False), (Reply (js ''ls'') True, True),
       (DeleteMessage 1 1, True), (Kill, True), (Reply retry_notice False, False)], True)"
proof -
  let ?tr1 = "[(SendMessageStreaming (js ''hi''), False), (Reply (js ''ls'') True, True)]"
  let ?tr2 = "?tr1 @ [(DeleteMessage 1 1, True)]"
  let ?tr3 = "?tr2 @ [(Kill, True), (Reply retry_notice False, True)]"
  have crash: "includes_str (js ''Error: process exited with code 1'') (js ''exited with code'')"
    by (simp add: js_def)
  have r0: "result (adapter env_crash_then_interrupted 0) =
              Inl (js ''Error: process exited with code 1'')"
    and r1: "result (adapter env_crash_then_interrupted 1) = Inl (js ''Error: query cancelled'')"
    by (simp_all add: env_crash_then_interrupted_def env_crash_once_def env_interrupted_def
        env_ok_def)
  have first: "run_events env_crash_then_interrupted 1
                 (events (adapter env_crash_then_interrupted 0))
                 ([] @ [(SendMessageStreaming (js ''hi''), False)]) new_StreamingState =
               (?tr1, state_one_tool)"
    by (simp add: env_crash_then_interrupted_def env_crash_once_def env_ok_def statusCallback_def
        statusCallback_try_def tool_event_def on_tool_def reply_def new_StreamingState_def
        state_one_tool_def js_def)
  have cleaned: "delete_each (throws env_crash_then_interrupted) (toolMessages state_one_tool)
                   ?tr1 = ?tr2"
    by (simp add: env_crash_then_interrupted_def env_crash_once_def env_ok_def state_one_tool_def
        new_StreamingState_def deleteMessage_def)
  have notified: "\<not> throws env_crash_then_interrupted (Suc (length ?tr2))"
    by (simp add: env_crash_then_interrupted_def env_crash_once_def env_ok_def)
  have retry: "attempt_loop env_crash_then_interrupted 1 1 (js ''u'') (js ''hi'') 0
                 new_StreamingState running_session [] =
               attempt_loop env_crash_then_interrupted 1 1 (js ''u'') (js ''hi'') 1
                 new_StreamingState
                 (kill (effect (adapter env_crash_then_interrupted 0) running_session)) ?tr3"
    using attempt_loop_crash_retry [OF r0 crash first cleaned notified] by simp
  have second: "run_events env_crash_then_interrupted 1
                  (events (adapter env_crash_then_interrupted 1))
                  (?tr3 @ [(SendMessageStreaming (js ''hi''), False)]) new_StreamingState =
                (?tr3 @ [(SendMessageStreaming (js ''hi''), False)], new_StreamingState)"
    by (simp add: env_crash_then_interrupted_def env_crash_once_def env_interrupted_def
        env_ok_def)
  have fin: "\<not> (includes_str (js ''Error: query cancelled'') (js ''exited with code'') \<and>
                1 < MAX_RETRIES)"
    by (simp add: MAX_RETRIES_def)
  have c: "includes_str (js ''Error: query cancelled'') (js ''cancel'')"
    by (simp add: js_def)
  have flag: "interruptRequested (effect (adapter env_crash_then_interrupted 1)
                (kill (effect (adapter env_crash_then_interrupted 0) running_session)))"
    by (simp add: env_crash_then_interrupted_def env_crash_once_def env_interrupted_def
        env_ok_def checkInterrupt_def js_def Let_def markInterrupt_def stop_def
        clearStopRequested_def kill_def running_session_def idle_session_def)
  have none: "toolMessages new_StreamingState = []"
    by (simp add: new_StreamingState_def)
  have one: "snd (attempt_loop env_crash_then_interrupted 1 1 (js ''u'') (js ''hi'') 0
                new_StreamingState running_session []) =
             (?tr3 @ [(SendMessageStreaming (js ''hi''), False)], False)"
  proof -
    have "attempt_loop env_crash_then_interrupted 1 1 (js ''u'') (js ''hi'') 1
            new_StreamingState
            (kill (effect (adapter env_crash_then_interrupted 0) running_session)) ?tr3 =
          (case on_error env_crash_then_interrupted 1 1 (js ''Error: query cancelled'')
                  new_StreamingState
                  (effect (adapter env_crash_then_interrupted 1)
                     (kill (effect (adapter env_crash_then_interrupted 0) running_session)))
                  (?tr3 @ [(SendMessageStreaming (js ''hi''), False)]) of
             Exit s' tr' threw \<Rightarrow> (s', tr', threw)
           | Retry s' tr' \<Rightarrow> (s', tr', False))"
      by (rule attempt_loop_rejected_final [OF _ r1 fin second]) (simp add: MAX_RETRIES_def)
    then show ?thesis
      unfolding retry on_error_final [OF fin]
      using c flag none by (simp add: Let_def)
  qed
  have r0': "result (adapter env_crash_notice_rejected 0) =
               Inl (js ''Error: process exited with code 1'')"
    and r1': "result (adapter env_crash_notice_rejected 1) = Inr (js ''ok'')"
    by (simp_all add: env_crash_notice_rejected_def env_crash_once_def env_ok_def)
  have two: "attempt_loop env_crash_notice_rejected 1 1 (js ''u'') (js ''hi'') 0
               new_StreamingState running_session [] =
     (running_session\<lparr>sessionId := None\<rparr>,
      ?tr2 @ [(Kill, True), (Reply retry_notice False, False)], True)"
    using crash
    by (subst attempt_loop.simps)
       (simp add: env_crash_notice_rejected_def env_crash_once_def env_ok_def MAX_RETRIES_def
          on_error_def Let_def new_StreamingState_def reply_def statusCallback_def
          statusCallback_try_def tool_event_def on_tool_def deleteMessage_def kill_def js_def)
  from r0 r1 one r0' r1' two show ?thesis by simp
qed

subsection \<open>Cancellation\<close>

text \<open>
  Claim C7.  An attempt rejects with an error text that contains \<open>abort\<close> or \<open>cancel\<close>
  (and is not retried as a crash); \<open>tr2\<close> is the trace once the events of the attempt
  have been rendered and its ephemeral messages deleted.  Then the handler consumes the
  interrupt flag of the session as it is when the query settles, and sends the stopped
  notice exactly when the flag was not set.  \<open>checkInterrupt\<close> on an input with the
  prefix \<open>!\<close> sets the flag when a query is running, whereas \<open>stop\<close> alone leaves the
  flag as it was.
\<close>

theorem cancellation_notice:
  assumes attempt: "attempt \<le> MAX_RETRIES"
    and rejected: "result (adapter env attempt) = Inl errorStr"
    and cancelled: "includes_str errorStr (js ''abort'') \<or> includes_str errorStr (js ''cancel'')"
    and final: "\<not> (includes_str errorStr (js ''exited with code'') \<and> attempt < MAX_RETRIES)"
    and streamed: "run_events env chatId (events (adapter env attempt))
                     (tr @ [(SendMessageStreaming message, False)]) state = (tr1, state1)"
    and cleaned: "delete_each (throws env) (toolMessages state1) tr1 = tr2"
  shows "attempt_loop env chatId userId username message attempt state s tr =
           (if interruptRequested (effect (adapter env attempt) s)
            then ((effect (adapter env attempt) s)\<lparr>interruptRequested := False\<rparr>, tr2, False)
            else ((effect (adapter env attempt) s)\<lparr>interruptRequested := False\<rparr>,
                  tr2 @ [(Reply stopped_notice False, \<not> throws env (length tr2))],
                  throws env (length tr2))) \<and>
         (startsWith input (js ''!'') \<and> isRunning s0 \<longrightarrow>
            interruptRequested (fst (snd (checkInterrupt input s0 tr0)))) \<and>
         interruptRequested (stop s0) = interruptRequested s0"
proof (intro conjI impI)
  show "attempt_loop env chatId userId username message attempt state s tr =
           (if interruptRequested (effect (adapter env attempt) s)
            then ((effect (adapter env attempt) s)\<lparr>interruptRequested := False\<rparr>, tr2, False)
            else ((effect (adapter env attempt) s)\<lparr>interruptRequested := False\<rparr>,
                  tr2 @ [(Reply stopped_notice False, \<not> throws env (length tr2))],
                  throws env (length tr2)))"
    using cancelled cleaned
    by (simp add: attempt_loop_rejected_final [OF attempt rejected final streamed]
        on_error_final [OF final] Let_def)
next
  assume "startsWith input (js ''!'') \<and> isRunning s0"
  then show "interruptRequested (fst (snd (checkInterrupt input s0 tr0)))"
    by (cases input)
       (auto simp: checkInterrupt_def js_def Let_def markInterrupt_def stop_def
          clearStopRequested_def)
next
  show "interruptRequested (stop s0) = interruptRequested s0"
    by (simp add: stop_def)
qed

theorem cancellation_notice_witness:
  "result (adapter env_interrupted 0) = Inl (js ''Error: query cancelled'') \<and>
   result (adapter env_stopped 0) = Inl (js ''Error: query cancelled'') \<and>
   includes_str (js ''Error: query cancelled'') (js ''cancel'') \<and>
   \<not> includes_str (js ''Error: query cancelled'') (js ''exited with code'') \<and>
   startsWith (js ''!next'') (js ''!'') \<and> isRunning running_session \<and>
   attempt_loop env_interrupted 1 1 (js ''u'') (js ''hi'') 0 new_StreamingState running_session [] =
     (running_session, [(SendMessageStreaming (js ''hi''), False)], False) \<and>
   attempt_loop env_stopped 1 1 (js ''u'') (js ''hi'') 0 new_StreamingState running_session [] =
     (running_session\<lparr>stopRequested := True\<rparr>,
      [(SendMessageStreaming (js ''hi''), False), (Reply stopped_notice False, True)], False)"
proof -
  have r1: "result (adapter env_interrupted 0) = Inl (js ''Error: query cancelled'')"
    and r2: "result (adapter env_stopped 0) = Inl (js ''Error: query cancelled'')"
    by (simp_all add: env_interrupted_def env_stopped_def env_ok_def)
  have c: "includes_str (js ''Error: query cancelled'') (js ''cancel'')"
    by (simp add: js_def)
  have nc: "\<not> includes_str (js ''Error: query cancelled'') (js ''exited with code'')"
    by (simp add: js_def)
  have fin: "\<not> (includes_str (js ''Error: query cancelled'') (js ''exited with code'') \<and>
                0 < MAX_RETRIES)"
    using nc by simp
  have a: "0 \<le> MAX_RETRIES" by simp
  have st1: "run_events env_interrupted 1 (events (adapter env_interrupted 0))
               ([] @ [(SendMessageStreaming (js ''hi''), False)]) new_StreamingState =
             ([(SendMessageStreaming (js ''hi''), False)], new_StreamingState)"
    and st2: "run_events env_stopped 1 (events (adapter env_stopped 0))
               ([] @ [(SendMessageStreaming (js ''hi''), False)]) new_StreamingState =
             ([(SendMessageStreaming (js ''hi''), False)], new_StreamingState)"
    by (simp_all add: env_interrupted_def env_stopped_def env_ok_def)
  have d1: "delete_each (throws env_interrupted) (toolMessages new_StreamingState)
              [(SendMessageStreaming (js ''hi''), False)] = [(SendMessageStreaming (js ''hi''), False)]"
    and d2: "delete_each (throws env_stopped) (toolMessages new_StreamingState)
              [(SendMessageStreaming (js ''hi''), False)] = [(SendMessageStreaming (js ''hi''), False)]"
    by (simp_all add: new_StreamingState_def)
  have e1: "effect (adapter env_interrupted 0) running_session =
            running_session\<lparr>interruptRequested := True\<rparr>"
    by (simp add: env_interrupted_def env_ok_def checkInterrupt_def js_def Let_def markInterrupt_def
        stop_def clearStopRequested_def running_session_def idle_session_def)
  have e2: "effect (adapter env_stopped 0) running_session =
            running_session\<lparr>stopRequested := True\<rparr>"
    by (simp add: env_stopped_def env_ok_def stop_def running_session_def idle_session_def)
  have t: "\<not> throws env_stopped 1"
    by (simp add: env_stopped_def env_ok_def)
  from cancellation_notice [OF a r1 disjI2 [OF c] fin st1 d1, of 1 "js ''u''" running_session] e1
  have i: "attempt_loop env_interrupted 1 1 (js ''u'') (js ''hi'') 0 new_StreamingState
             running_session [] =
           (running_session, [(SendMessageStreaming (js ''hi''), False)], False)"
    by (simp add: running_session_def idle_session_def)
  from cancellation_notice [OF a r2 disjI2 [OF c] fin st2 d2, of 1 "js ''u''" running_session] e2 t
  have x: "attempt_loop env_stopped 1 1 (js ''u'') (js ''hi'') 0 new_StreamingState
             running_session [] =
           (running_session\<lparr>stopRequested := True\<rparr>,
            [(SendMessageStreaming (js ''hi''), False), (Reply stopped_notice False, True)], False)"
    by (simp add: running_session_def idle_session_def)
  from r1 r2 c nc i x show ?thesis
    by (simp add: js_def running_session_def idle_session_def)
qed

subsection \<open>Release of the running flag\<close>

text \<open>
  Claim C1 fails on the code.  The handler calls \<open>stopProcessing()\<close> after the retry loop,
  not in a \<open>finally\<close>: when the \<open>ctx.reply\<close> of a notice in the \<open>catch\<close> block throws,
  the exception leaves the handler and \<open>isRunning\<close> stays \<open>true\<close>.  Here a query fails
  with a timeout and the transport rejects the error notice.
\<close>

theorem isRunning_stuck_after_failed_notice:
  "handleText env_timeout_down ctx_hi idle_session [] =
     (idle_session\<lparr>isRunning := True, lastMessage := Some (js ''hi'')\<rparr>,
      [(StartTypingIndicator, True), (SendMessageStreaming (js ''hi''), False),
       (Reply (error_notice (js ''Error: timeout'')) False, False)],
      True)"
proof -
  have nc: "\<not> includes_str (js ''Error: timeout'') (js ''exited with code'')"
    and na: "\<not> includes_str (js ''Error: timeout'') (js ''abort'')"
    and ncl: "\<not> includes_str (js ''Error: timeout'') (js ''cancel'')"
    by (simp_all add: js_def)
  have loop: "attempt_loop env_timeout_down 1 1 (js ''u'') (js ''hi'') 0 new_StreamingState s
          [(StartTypingIndicator, True)] =
        (s, [(StartTypingIndicator, True), (SendMessageStreaming (js ''hi''), False),
             (Reply (error_notice (js ''Error: timeout'')) False, False)], True)" for s
    using nc na ncl
    by (subst attempt_loop.simps)
       (simp add: env_timeout_down_def env_down_def env_ok_def MAX_RETRIES_def on_error_def Let_def
          new_StreamingState_def reply_def)
  have pre: "checkInterrupt (js ''hi'') idle_session [] = (js ''hi'', idle_session, [])"
    by (simp add: checkInterrupt_def js_def)
  have tr: "trim (js ''hi'') \<noteq> []"
    by (simp add: trim_def trimStart_def trimEnd_def isWhiteSpace_def js_def)
  have auth: "isAuthorized env_timeout_down 1"
    and limit: "rateLimiter_check env_timeout_down 1 = (True, [])"
    by (simp_all add: env_timeout_down_def env_down_def env_ok_def)
  have ne: "js ''hi'' \<noteq> []" "js ''u'' \<noteq> []"
    by (simp_all add: js_def)
  show ?thesis
    using pre tr auth limit ne
    by (simp add: handleText_def ctx_hi_def loop Let_def isActive_def startProcessing_def
        idle_session_def)
qed

section \<open>Classification of heartbeat responses\<close>

subsection \<open>White space around a string\<close>

lemma startsWith_length: "startsWith s p \<Longrightarrow> length p \<le> length s"
  by (induction s p rule: startsWith.induct) auto

lemma startsWith_append:
  "\<forall>c \<in> set p. \<not> isWhiteSpace c \<Longrightarrow> \<forall>c \<in> set b. isWhiteSpace c \<Longrightarrow>
   startsWith (m @ b) p = startsWith m p"
proof (induction m p rule: startsWith.induct)
  case (1 s)
  then show ?case by simp
next
  case (2 p ps)
  then show ?case by (cases b) auto
next
  case (3 c s p ps)
  then show ?case by simp
qed

lemma includes_blank:
  "p \<noteq> [] \<Longrightarrow> \<forall>c \<in> set p. \<not> isWhiteSpace c \<Longrightarrow> \<forall>c \<in> set b. isWhiteSpace c \<Longrightarrow>
   \<not> includes_str b p"
proof (induction b)
  case Nil
  then show ?case by simp
next
  case (Cons c b)
  then show ?case by (cases p) auto
qed

lemma includes_append_blank:
  assumes "p \<noteq> []" "\<forall>c \<in> set p. \<not> isWhiteSpace c" "\<forall>c \<in> set b. isWhiteSpace c"
  shows "includes_str (m @ b) p = includes_str m p"
proof (induction m)
  case Nil
  from includes_blank[OF assms] assms(1) show ?case by simp
next
  case (Cons c m)
  have "startsWith ((c # m) @ b) p = startsWith (c # m) p"
    by (rule startsWith_append[OF assms(2,3)])
  with Cons show ?case by simp
qed

lemma includes_blank_append:
  assumes "p \<noteq> []" "\<forall>c \<in> set p. \<not> isWhiteSpace c" "\<forall>c \<in> set a. isWhiteSpace c"
  shows "includes_str (a @ m) p = includes_str m p"
  using assms(3)
proof (induction a)
  case Nil
  then show ?case by simp
next
  case (Cons c a)
  with assms(1,2) show ?case by (cases p) auto
qed

lemma replace_blank_append:
  assumes "p \<noteq> []" "\<forall>c \<in> set p. \<not> isWhiteSpace c" "\<forall>c \<in> set a. isWhiteSpace c"
  shows "replace (a @ m) p r = a @ replace m p r"
  using assms(3)
proof (induction a)
  case Nil
  then show ?case by simp
next
  case (Cons c a)
  with assms(1,2) show ?case by (cases p) auto
qed

lemma replace_append_blank:
  assumes "\<forall>c \<in> set p. \<not> isWhiteSpace c" "\<forall>c \<in> set b. isWhiteSpace c"
  shows "includes_str m p \<Longrightarrow> p \<noteq> [] \<Longrightarrow> replace (m @ b) p r = replace m p r @ b"
proof (induction m)
  case Nil
  then show ?case by simp
next
  case (Cons c m)
  have sw: "startsWith ((c # m) @ b) p = startsWith (c # m) p"
    by (rule startsWith_append[OF assms])
  show ?case
  proof (cases "startsWith (c # m) p")
    case True
    from startsWith_length[OF True] have "length p \<le> length (c # m)" .
    then have "drop (length p) ((c # m) @ b) = drop (length p) (c # m) @ b"
      by (simp only: drop_append) simp
    with True sw show ?thesis by simp
  next
    case False
    with Cons.prems have "includes_str m p" by simp
    from Cons.IH[OF this Cons.prems(2)] False sw show ?thesis by simp
  qed
qed

lemma trimStart_blank_append:
  "\<forall>c \<in> set a. isWhiteSpace c \<Longrightarrow> trimStart (a @ y) = trimStart y"
  by (simp add: trimStart_def dropWhile_append2)

lemma trimEnd_append_blank:
  "\<forall>c \<in> set b. isWhiteSpace c \<Longrightarrow> trimEnd (y @ b) = trimEnd y"
  using dropWhile_append2 [of "rev b" isWhiteSpace "rev y"] by (simp add: trimEnd_def)

lemma trimStart_append_blank:
  assumes "\<forall>c \<in> set b. isWhiteSpace c"
  shows "trimEnd (trimStart (y @ b)) = trimEnd (trimStart y)"
proof (cases "\<forall>c \<in> set y. isWhiteSpace c")
  case True
  with assms have "trimStart (y @ b) = []" "trimStart y = []"
    by (simp_all add: trimStart_def)
  then show ?thesis by simp
next
  case False
  then obtain c where "c \<in> set y" "\<not> isWhiteSpace c" by blast
  then have "trimStart (y @ b) = trimStart y @ b"
    by (simp add: trimStart_def dropWhile_append1)
  with assms show ?thesis by (simp add: trimEnd_append_blank)
qed

lemma trim_blank_around:
  "\<forall>c \<in> set a. isWhiteSpace c \<Longrightarrow> \<forall>c \<in> set b. isWhiteSpace c \<Longrightarrow> trim (a @ y @ b) = trim y"
  by (simp add: trim_def trimStart_blank_append trimStart_append_blank)

lemma trim_decompose:
  "\<exists>a b. s = a @ trim s @ b \<and> (\<forall>c \<in> set a. isWhiteSpace c) \<and> (\<forall>c \<in> set b. isWhiteSpace c)"
proof -
  let ?a = "takeWhile isWhiteSpace s"
  let ?x = "dropWhile isWhiteSpace s"
  let ?b = "rev (takeWhile isWhiteSpace (rev ?x))"
  have "rev (dropWhile isWhiteSpace (rev ?x)) @ ?b =
        rev (takeWhile isWhiteSpace (rev ?x) @ dropWhile isWhiteSpace (rev ?x))"
    by (simp only: rev_append)
  also have "\<dots> = rev (rev ?x)"
    by (simp only: takeWhile_dropWhile_id)
  also have "\<dots> = ?x"
    by (simp only: rev_rev_ident)
  finally have x: "?x = trim s @ ?b"
    by (simp only: trim_def trimEnd_def trimStart_def)
  have "s = ?a @ ?x" by simp
  with x have "s = ?a @ trim s @ ?b" by simp
  moreover have "\<forall>c \<in> set ?a. isWhiteSpace c" by (auto dest: set_takeWhileD)
  moreover have "\<forall>c \<in> set ?b. isWhiteSpace c" by (auto dest: set_takeWhileD)
  ultimately show ?thesis by blast
qed

lemma trim_empty_iff: "trim s = [] \<longleftrightarrow> list_all isWhiteSpace s"
proof
  assume "trim s = []"
  with trim_decompose[of s] show "list_all isWhiteSpace s"
    by (auto simp: list_all_iff)
next
  assume "list_all isWhiteSpace s"
  then have d: "dropWhile isWhiteSpace s = []"
    by (simp add: list_all_iff)
  show "trim s = []"
    unfolding trim_def trimStart_def trimEnd_def d by simp
qed

subsection \<open>The acknowledgment token\<close>

lemma token_nonempty: "HEARTBEAT_TOKEN \<noteq> []"
  by (simp add: HEARTBEAT_TOKEN_def js_def)

lemma token_no_blank: "\<forall>c \<in> set HEARTBEAT_TOKEN. \<not> isWhiteSpace c"
  by (simp add: HEARTBEAT_TOKEN_def js_def isWhiteSpace_def)

lemma includes_trim: "includes_str (trim s) HEARTBEAT_TOKEN = includes_str s HEARTBEAT_TOKEN"
proof -
  from trim_decompose[of s] obtain a b where
    s: "s = a @ trim s @ b" and a: "\<forall>c \<in> set a. isWhiteSpace c" and b: "\<forall>c \<in> set b. isWhiteSpace c"
    by blast
  have "includes_str (a @ trim s @ b) HEARTBEAT_TOKEN = includes_str (trim s @ b) HEARTBEAT_TOKEN"
    by (rule includes_blank_append[OF token_nonempty token_no_blank a])
  also have "\<dots> = includes_str (trim s) HEARTBEAT_TOKEN"
    by (rule includes_append_blank[OF token_nonempty token_no_blank b])
  finally show ?thesis using s by simp
qed

lemma remainder_trim:
  assumes "includes_str s HEARTBEAT_TOKEN"
  shows "trim (replace (trim s) HEARTBEAT_TOKEN []) = trim (replace s HEARTBEAT_TOKEN [])"
proof -
  from trim_decompose[of s] obtain a b where
    s: "s = a @ trim s @ b" and a: "\<forall>c \<in> set a. isWhiteSpace c" and b: "\<forall>c \<in> set b. isWhiteSpace c"
    by blast
  from assms have inc: "includes_str (trim s) HEARTBEAT_TOKEN" by (simp add: includes_trim)
  have "replace (a @ trim s @ b) HEARTBEAT_TOKEN [] = a @ replace (trim s @ b) HEARTBEAT_TOKEN []"
    by (rule replace_blank_append[OF token_nonempty token_no_blank a])
  also have "\<dots> = a @ replace (trim s) HEARTBEAT_TOKEN [] @ b"
    by (simp add: replace_append_blank[OF token_no_blank b inc token_nonempty])
  finally have "replace s HEARTBEAT_TOKEN [] = a @ replace (trim s) HEARTBEAT_TOKEN [] @ b"
    using s by simp
  then show ?thesis by (simp add: trim_blank_around[OF a b])
qed

text \<open>
  Claim C9.  \<open>shouldSuppressHeartbeatResponse\<close> returns \<open>true\<close> exactly for the
  suppressible responses, and \<open>false\<close> for every other response.  The function trims
  before it looks for the token and removes it; the specification removes the token from
  the response as given.  Both agree, since the token holds no white space.
\<close>

theorem shouldSuppress_classification:
  "shouldSuppressHeartbeatResponse response = suppressible response"
proof (cases "trim response = []")
  case True
  then have "list_all isWhiteSpace response" by (simp add: trim_empty_iff)
  with True show ?thesis
    by (simp add: shouldSuppressHeartbeatResponse_def suppressible_def)
next
  case False
  then have nb: "\<not> list_all isWhiteSpace response" by (simp add: trim_empty_iff)
  then have ne: "response \<noteq> []" by auto
  show ?thesis
  proof (cases "includes_str response HEARTBEAT_TOKEN")
    case True
    with False nb ne show ?thesis
      by (simp add: shouldSuppressHeartbeatResponse_def suppressible_def includes_trim
          remainder_trim[OF True] MAX_ACK_LENGTH_def Let_def)
  next
    case no: False
    with False nb ne show ?thesis
      by (simp add: shouldSuppressHeartbeatResponse_def suppressible_def includes_trim Let_def)
  qed
qed

theorem shouldSuppress_classification_witness:
  "shouldSuppressHeartbeatResponse (js ''   '') \<and> suppressible (js ''   '') \<and>
   shouldSuppressHeartbeatResponse (js '' [[HEARTBEAT_ACK]] all quiet '') \<and>
   suppressible (js '' [[HEARTBEAT_ACK]] all quiet '') \<and>
   shouldSuppressHeartbeatResponse (js ''Heartbeat OK.'') \<and> suppressible (js ''Heartbeat OK.'') \<and>
   \<not> shouldSuppressHeartbeatResponse (js ''The build is failing'') \<and>
   \<not> suppressible (js ''The build is failing'')"
proof -
  have "suppressible (js ''   '')"
    by (simp add: suppressible_def js_def isWhiteSpace_def)
  moreover have "suppressible (js '' [[HEARTBEAT_ACK]] all quiet '')"
    by (simp add: suppressible_def js_def HEARTBEAT_TOKEN_def isWhiteSpace_def trim_def trimStart_def
        trimEnd_def Let_def)
  moreover have "suppressible (js ''Heartbeat OK.'')"
    by (simp add: suppressible_def js_def HEARTBEAT_TOKEN_def isWhiteSpace_def trim_def trimStart_def
        trimEnd_def ackPatterns_def regex_test_def canonicalize_def)
  moreover have "\<not> suppressible (js ''The build is failing'')"
    by (simp add: suppressible_def js_def HEARTBEAT_TOKEN_def isWhiteSpace_def trim_def trimStart_def
        trimEnd_def ackPatterns_def regex_test_def canonicalize_def)
  ultimately show ?thesis
    using shouldSuppress_classification [of "js ''   ''"]
      shouldSuppress_classification [of "js '' [[HEARTBEAT_ACK]] all quiet ''"]
      shouldSuppress_classification [of "js ''Heartbeat OK.''"]
      shouldSuppress_classification [of "js ''The build is failing''"]
    by simp
qed

end
